theory Spec2Isabelle
  imports Complex_Main "HOL-Library.Sublist" "HOL-Library.Log_Nat" "HOL-Library.Code_Target_Nat"
begin

section \<open>JavaScript values\<close>

text \<open>
  A JavaScript string is a sequence of UTF-16 code units; a code unit is modelled as a
  natural number. \<open>lit\<close> turns an Isabelle string literal into the code units of the
  JavaScript literal with the same characters, \<open>ch\<close> does it for one character.
\<close>

type_synonym jsstring = "nat list"

definition lit :: "string \<Rightarrow> jsstring" where
  "lit s = map of_char s"

abbreviation (input) ch :: "char \<Rightarrow> nat" where
  "ch c \<equiv> of_char c"

text \<open>
  The value \<open>JSON.parse\<close> returns. A number is kept as the exact decimal value of its
  literal; JavaScript holds the double nearest to it. An object is the list of its
  properties in creation order.
\<close>

datatype json =
    JNull
  | JBool bool
  | JNumber rat
  | JString jsstring
  | JArray "json list"
  | JObject "(jsstring \<times> json) list"

text \<open>
  \<open>ToBoolean\<close>: \<open>null\<close>, \<open>false\<close>, \<open>0\<close> and the empty string are falsy, every
  object and array is truthy. The double of a decimal literal is zero exactly when the
  magnitude of the literal is at most \<open>2^-1075\<close>, half the least positive double.
\<close>

fun truthy :: "json \<Rightarrow> bool" where
  "truthy JNull = False"
| "truthy (JBool b) = b"
| "truthy (JNumber q) = (\<bar>q\<bar> * 2 ^ 1075 > 1)"
| "truthy (JString s) = (s \<noteq> [])"
| "truthy (JArray xs) = True"
| "truthy (JObject kvs) = True"

text \<open>A value that may be \<open>undefined\<close> (\<open>None\<close>), which is falsy.\<close>

definition isTruthy :: "json option \<Rightarrow> bool" where
  "isTruthy v = (case v of None \<Rightarrow> False | Some x \<Rightarrow> truthy x)"

text \<open>
  Reading the property \<open>summary\<close>, \<open>timeline\<close> or \<open>insights\<close> of a value that is not
  \<open>null\<close>: the property of an object, \<open>undefined\<close> on an array, string, number or
  boolean, whose prototypes have no property of these names. (On \<open>null\<close> the read throws.)
\<close>

fun getProperty :: "json \<Rightarrow> jsstring \<Rightarrow> json option" where
  "getProperty (JObject kvs) k = map_of kvs k"
| "getProperty _ k = None"

section \<open>Built-in string operations used by the parser\<close>

text \<open>
  The white space of \<open>String.prototype.trim\<close> and of \<open>\s\<close> in a regular expression:
  the code points WhiteSpace and LineTerminator of ECMAScript.
\<close>

definition isWhiteSpace :: "nat \<Rightarrow> bool" where
  "isWhiteSpace c \<longleftrightarrow>
     (9 \<le> c \<and> c \<le> 13) \<or> c = 32 \<or> c = 160 \<or> c = 5760
     \<or> (8192 \<le> c \<and> c \<le> 8202) \<or> c = 8232 \<or> c = 8233 \<or> c = 8239
     \<or> c = 8287 \<or> c = 12288 \<or> c = 65279"

definition trim :: "jsstring \<Rightarrow> jsstring" where
  "trim s = rev (dropWhile isWhiteSpace (rev (dropWhile isWhiteSpace s)))"

text \<open>
  Matching a literal at the start of the input gives the rest of the input;
  \<open>optionally p\<close> is the greedy \<open>p?\<close> at the end of a pattern.
\<close>

definition stripPrefix :: "'a list \<Rightarrow> 'a list \<Rightarrow> 'a list option" where
  "stripPrefix p s = (if prefix p s then Some (drop (length p) s) else None)"

definition optionally :: "'a list \<Rightarrow> 'a list \<Rightarrow> 'a list" where
  "optionally p s = (case stripPrefix p s of Some rest \<Rightarrow> rest | None \<Rightarrow> s)"

text \<open>
  analysisParser.ts line 8, the pattern \<^verbatim>\<open>/```json\n?|\n?```/\<close> tried at the start of
  \<open>s\<close>: the first alternative before the second, and in the second the newline taken
  when the fence follows it.
\<close>

definition matchFence :: "jsstring \<Rightarrow> jsstring option" where
  "matchFence s =
     (case stripPrefix (lit ''```json'') s of
        Some rest \<Rightarrow> Some (optionally (lit ''\<newline>'') rest)
      | None \<Rightarrow>
          (case stripPrefix (lit ''\<newline>```'') s of
             Some rest \<Rightarrow> Some rest
           | None \<Rightarrow> stripPrefix (lit ''```'') s))"

lemma stripPrefix_shorter:
  "stripPrefix p s = Some rest \<Longrightarrow> p \<noteq> [] \<Longrightarrow> length rest < length s"
  by (auto simp: stripPrefix_def prefix_def split: if_splits)

lemma optionally_length: "length (optionally p s) \<le> length s"
  by (auto simp: optionally_def stripPrefix_def split: option.splits if_splits)

lemma matchFence_shorter: "matchFence s = Some rest \<Longrightarrow> length rest < length s"
  unfolding matchFence_def
  by (auto simp: lit_def split: option.splits dest!: stripPrefix_shorter
      intro: le_less_trans [OF optionally_length])

text \<open>
  Line 8, \<open>replace\<close> with the global flag and the empty replacement: the matches are
  found from left to right, each search starting where the match before ended.
\<close>

function stripFences :: "jsstring \<Rightarrow> jsstring" where
  "stripFences [] = []"
| "stripFences (c # cs) =
     (case matchFence (c # cs) of
        Some rest \<Rightarrow> stripFences rest
      | None \<Rightarrow> c # stripFences cs)"
  by pat_completeness auto
termination
  by (relation "measure length") (auto dest: matchFence_shorter)

text \<open>
  Line 9, \<^verbatim>\<open>/^```\n?|\n?```$/g\<close> without the multiline flag: the first alternative
  matches at index 0 only, the second only where the match ends the input; the search
  for the second goes on behind the match of the first.
\<close>

definition stripEdgeFences :: "jsstring \<Rightarrow> jsstring" where
  "stripEdgeFences s =
     (let r = (case stripPrefix (lit ''```'') s of
                 Some rest \<Rightarrow> optionally (lit ''\<newline>'') rest
               | None \<Rightarrow> s)
      in if suffix (lit ''\<newline>```'') r then take (length r - 4) r
         else if suffix (lit ''```'') r then take (length r - 3) r
         else r)"

text \<open>Line 10, \<^verbatim>\<open>/^json\s*/\<close>.\<close>

definition stripJsonTag :: "jsstring \<Rightarrow> jsstring" where
  "stripJsonTag s =
     (case stripPrefix (lit ''json'') s of
        Some rest \<Rightarrow> dropWhile isWhiteSpace rest
      | None \<Rightarrow> s)"

text \<open>
  Line 13, \<^verbatim>\<open>match(/\{[\s\S]*\}/)\<close>: from the first opening brace to the last closing
  brace behind it; no match when there is none.
\<close>

definition matchBraces :: "jsstring \<Rightarrow> jsstring option" where
  "matchBraces s =
     (let fromOpen = dropWhile (\<lambda>c. c \<noteq> ch CHR ''{'') s;
          span = rev (dropWhile (\<lambda>c. c \<noteq> ch CHR ''}'') (rev fromOpen))
      in if span = [] then None else Some span)"

section \<open>JSON.parse\<close>

text \<open>
  The built-in \<open>JSON.parse\<close> over the JSON grammar of ECMA-404: the text is cut into
  tokens, and the tokens are read by a machine with a stack of the arrays and objects
  that are open. \<open>None\<close> is the SyntaxError. A number token takes all the characters
  of number literals that follow its first one: in a text of the grammar a number is
  followed by white space, a comma or a closing bracket, so a longer run is an error
  either way.
\<close>

datatype token =
    LBrace | RBrace | LBracket | RBracket | Colon | Comma
  | StringTok jsstring | NumberTok rat | TrueTok | FalseTok | NullTok

definition isJsonWhiteSpace :: "nat \<Rightarrow> bool" where
  "isJsonWhiteSpace c \<longleftrightarrow> c = 9 \<or> c = 10 \<or> c = 13 \<or> c = 32"

definition isDigit :: "nat \<Rightarrow> bool" where
  "isDigit c \<longleftrightarrow> ch CHR ''0'' \<le> c \<and> c \<le> ch CHR ''9''"

definition hexDigit :: "nat \<Rightarrow> nat option" where
  "hexDigit c =
     (if ch CHR ''0'' \<le> c \<and> c \<le> ch CHR ''9'' then Some (c - ch CHR ''0'')
      else if ch CHR ''a'' \<le> c \<and> c \<le> ch CHR ''f'' then Some (c - ch CHR ''a'' + 10)
      else if ch CHR ''A'' \<le> c \<and> c \<le> ch CHR ''F'' then Some (c - ch CHR ''A'' + 10)
      else None)"

text \<open>The character behind a backslash: quote, backslash, slash, b, f, n, r, t.\<close>

definition escapeChar :: "nat \<Rightarrow> nat option" where
  "escapeChar e =
     (if e = ch CHR 0x22 then Some (ch CHR 0x22)
      else if e = ch CHR 0x5C then Some (ch CHR 0x5C)
      else if e = ch CHR ''/'' then Some (ch CHR ''/'')
      else if e = ch CHR ''b'' then Some 8
      else if e = ch CHR ''f'' then Some 12
      else if e = ch CHR ''n'' then Some 10
      else if e = ch CHR ''r'' then Some 13
      else if e = ch CHR ''t'' then Some 9
      else None)"

text \<open>
  A string behind its opening quote: the value and the input behind the closing quote.
  Control characters below U+0020 are not allowed unescaped.
\<close>

fun lexString :: "jsstring \<Rightarrow> jsstring \<Rightarrow> (jsstring \<times> jsstring) option" where
  "lexString [] acc = None"
| "lexString (c # cs) acc =
     (if c = ch CHR 0x22 then Some (rev acc, cs)
      else if c = ch CHR 0x5C then
        (case cs of
           [] \<Rightarrow> None
         | e # cs' \<Rightarrow>
             if e = ch CHR ''u'' then
               (case cs' of
                  h1 # h2 # h3 # h4 # cs'' \<Rightarrow>
                    (case (hexDigit h1, hexDigit h2, hexDigit h3, hexDigit h4) of
                       (Some a, Some b, Some c, Some d) \<Rightarrow>
                         lexString cs'' ((((a * 16 + b) * 16 + c) * 16 + d) # acc)
                     | _ \<Rightarrow> None)
                | _ \<Rightarrow> None)
             else
               (case escapeChar e of
                  Some x \<Rightarrow> lexString cs' (x # acc)
                | None \<Rightarrow> None))
      else if c < 32 then None
      else lexString cs (c # acc))"

lemma lexString_shorter: "lexString s acc = Some (str, rest) \<Longrightarrow> length rest < length s"
  apply (induction s acc rule: lexString.induct)
   apply simp
  apply (simp split: if_splits list.splits option.splits prod.splits)
     apply (force intro: less_SucI)+
  done

definition digitsValue :: "jsstring \<Rightarrow> nat" where
  "digitsValue ds = foldl (\<lambda>n d. 10 * n + (d - ch CHR ''0'')) 0 ds"

definition isNumberChar :: "nat \<Rightarrow> bool" where
  "isNumberChar c \<longleftrightarrow>
     isDigit c \<or> c = ch CHR ''-'' \<or> c = ch CHR ''+'' \<or> c = ch CHR ''.''
     \<or> c = ch CHR ''e'' \<or> c = ch CHR ''E''"

text \<open>
  A number literal: an optional minus, an integer part without a leading zero, an
  optional fraction and an optional exponent, each with at least one digit.
\<close>

definition parseNumber :: "jsstring \<Rightarrow> rat option" where
  "parseNumber s =
     (let negative = (s \<noteq> [] \<and> hd s = ch CHR ''-'');
          s1 = (if negative then tl s else s);
          intDigits = takeWhile isDigit s1;
          s2 = dropWhile isDigit s1;
          hasFraction = (s2 \<noteq> [] \<and> hd s2 = ch CHR ''.'');
          fracDigits = (if hasFraction then takeWhile isDigit (tl s2) else []);
          s3 = (if hasFraction then dropWhile isDigit (tl s2) else s2);
          hasExponent = (s3 \<noteq> [] \<and> (hd s3 = ch CHR ''e'' \<or> hd s3 = ch CHR ''E''));
          s4 = (if hasExponent then tl s3 else s3);
          expNegative = (hasExponent \<and> s4 \<noteq> [] \<and> hd s4 = ch CHR ''-'');
          s5 = (if hasExponent \<and> s4 \<noteq> [] \<and> (hd s4 = ch CHR ''-'' \<or> hd s4 = ch CHR ''+'')
                then tl s4 else s4);
          expDigits = (if hasExponent then takeWhile isDigit s5 else []);
          s6 = (if hasExponent then dropWhile isDigit s5 else s5);
          mantissa = (of_nat (digitsValue (intDigits @ fracDigits)) :: rat)
                       / 10 ^ length fracDigits;
          scaled = (if expNegative then mantissa / 10 ^ digitsValue expDigits
                    else mantissa * 10 ^ digitsValue expDigits)
      in if intDigits = [] \<or> (hd intDigits = ch CHR ''0'' \<and> length intDigits \<noteq> 1)
            \<or> (hasFraction \<and> fracDigits = [])
            \<or> (hasExponent \<and> expDigits = [])
            \<or> s6 \<noteq> []
         then None
         else Some (if negative then - scaled else scaled))"

function tokenize :: "jsstring \<Rightarrow> token list option" where
  "tokenize [] = Some []"
| "tokenize (c # cs) =
     (if isJsonWhiteSpace c then tokenize cs
      else if c = ch CHR ''{'' then map_option (Cons LBrace) (tokenize cs)
      else if c = ch CHR ''}'' then map_option (Cons RBrace) (tokenize cs)
      else if c = ch CHR ''['' then map_option (Cons LBracket) (tokenize cs)
      else if c = ch CHR '']'' then map_option (Cons RBracket) (tokenize cs)
      else if c = ch CHR '':'' then map_option (Cons Colon) (tokenize cs)
      else if c = ch CHR '','' then map_option (Cons Comma) (tokenize cs)
      else if c = ch CHR 0x22 then
        (case lexString cs [] of
           None \<Rightarrow> None
         | Some (str, rest) \<Rightarrow> map_option (Cons (StringTok str)) (tokenize rest))
      else if isDigit c \<or> c = ch CHR ''-'' then
        (case parseNumber (c # takeWhile isNumberChar cs) of
           None \<Rightarrow> None
         | Some q \<Rightarrow> map_option (Cons (NumberTok q)) (tokenize (dropWhile isNumberChar cs)))
      else if prefix (lit ''true'') (c # cs) then map_option (Cons TrueTok) (tokenize (drop 3 cs))
      else if prefix (lit ''false'') (c # cs) then map_option (Cons FalseTok) (tokenize (drop 4 cs))
      else if prefix (lit ''null'') (c # cs) then map_option (Cons NullTok) (tokenize (drop 3 cs))
      else None)"
  by pat_completeness auto
termination
  apply (relation "measure length")
  apply (auto dest: lexString_shorter simp: le_imp_less_Suc length_dropWhile_le)
  done

text \<open>
  The open arrays and objects, innermost first: an array with its elements so far, an
  object waiting for a key or a comma, an object waiting for the value of a key.
\<close>

datatype frame =
    InArray "json list"
  | InObject "(jsstring \<times> json) list"
  | InMember "(jsstring \<times> json) list" jsstring

datatype mode =
    WantValue | WantValueOrEnd | WantKeyOrEnd | WantKey | WantColon | AfterValue
  | Finished json

text \<open>A key that comes again replaces the value at the place of the first.\<close>

definition setProperty ::
  "jsstring \<Rightarrow> json \<Rightarrow> (jsstring \<times> json) list \<Rightarrow> (jsstring \<times> json) list" where
  "setProperty k v kvs =
     (if k \<in> fst ` set kvs then map (\<lambda>(k', v'). if k' = k then (k', v) else (k', v')) kvs
      else kvs @ [(k, v)])"

fun completeValue :: "json \<Rightarrow> frame list \<Rightarrow> (mode \<times> frame list) option" where
  "completeValue v [] = Some (Finished v, [])"
| "completeValue v (InArray xs # stack) = Some (AfterValue, InArray (xs @ [v]) # stack)"
| "completeValue v (InMember kvs k # stack) =
     Some (AfterValue, InObject (setProperty k v kvs) # stack)"
| "completeValue v (InObject kvs # stack) = None"

fun startValue :: "token \<Rightarrow> frame list \<Rightarrow> (mode \<times> frame list) option" where
  "startValue LBrace stack = Some (WantKeyOrEnd, InObject [] # stack)"
| "startValue LBracket stack = Some (WantValueOrEnd, InArray [] # stack)"
| "startValue (StringTok s) stack = completeValue (JString s) stack"
| "startValue (NumberTok q) stack = completeValue (JNumber q) stack"
| "startValue TrueTok stack = completeValue (JBool True) stack"
| "startValue FalseTok stack = completeValue (JBool False) stack"
| "startValue NullTok stack = completeValue JNull stack"
| "startValue _ stack = None"

definition startKey :: "token \<Rightarrow> frame list \<Rightarrow> (mode \<times> frame list) option" where
  "startKey t stack =
     (case (t, stack) of
        (StringTok k, InObject kvs # rest) \<Rightarrow> Some (WantColon, InMember kvs k # rest)
      | _ \<Rightarrow> None)"

definition closeArray :: "frame list \<Rightarrow> (mode \<times> frame list) option" where
  "closeArray stack =
     (case stack of InArray xs # rest \<Rightarrow> completeValue (JArray xs) rest | _ \<Rightarrow> None)"

definition closeObject :: "frame list \<Rightarrow> (mode \<times> frame list) option" where
  "closeObject stack =
     (case stack of InObject kvs # rest \<Rightarrow> completeValue (JObject kvs) rest | _ \<Rightarrow> None)"

definition parseStep :: "mode \<times> frame list \<Rightarrow> token \<Rightarrow> (mode \<times> frame list) option" where
  "parseStep st t =
     (case st of (m, stack) \<Rightarrow>
        (case m of
           WantValue \<Rightarrow> startValue t stack
         | WantValueOrEnd \<Rightarrow> if t = RBracket then closeArray stack else startValue t stack
         | WantKeyOrEnd \<Rightarrow> if t = RBrace then closeObject stack else startKey t stack
         | WantKey \<Rightarrow> startKey t stack
         | WantColon \<Rightarrow> if t = Colon then Some (WantValue, stack) else None
         | AfterValue \<Rightarrow>
             (case stack of
                InArray xs # rest \<Rightarrow>
                  if t = Comma then Some (WantValue, stack)
                  else if t = RBracket then closeArray stack
                  else None
              | InObject kvs # rest \<Rightarrow>
                  if t = Comma then Some (WantKey, stack)
                  else if t = RBrace then closeObject stack
                  else None
              | _ \<Rightarrow> None)
         | Finished v \<Rightarrow> None))"

fun parseTokens :: "mode \<times> frame list \<Rightarrow> token list \<Rightarrow> json option" where
  "parseTokens st [] = (case st of (Finished v, []) \<Rightarrow> Some v | _ \<Rightarrow> None)"
| "parseTokens st (t # ts) =
     (case parseStep st t of
        None \<Rightarrow> None
      | Some st' \<Rightarrow> parseTokens st' ts)"

definition JSON_parse :: "jsstring \<Rightarrow> json option" where
  "JSON_parse text =
     (case tokenize text of
        None \<Rightarrow> None
      | Some tokens \<Rightarrow> parseTokens (WantValue, []) tokens)"

section \<open>The analysis parser (utils/analysisParser.ts)\<close>

text \<open>
  Lines 5-16 of \<open>parseAnalysisResult\<close>: the text that is handed to \<open>JSON.parse\<close>.
\<close>

definition candidateText :: "jsstring \<Rightarrow> jsstring" where
  "candidateText result =
     (let cleanResult = trim result;
          cleanResult = stripFences cleanResult;
          cleanResult = stripEdgeFences cleanResult;
          cleanResult = stripJsonTag cleanResult
      in case matchBraces cleanResult of
           Some jsonMatch \<Rightarrow> jsonMatch
         | None \<Rightarrow> cleanResult)"

text \<open>
  The body of the \<open>try\<close> block, lines 5-33. \<open>Inl\<close> is an exception thrown in it: the
  SyntaxError of \<open>JSON.parse\<close>, or the TypeError of reading \<open>parsedData.summary\<close> when
  the text decodes to \<open>null\<close>. \<open>Inr None\<close> is the \<open>return null\<close> of line 32.
\<close>

datatype jsexn = SyntaxError | TypeError

definition parseAnalysisTry :: "jsstring \<Rightarrow> jsexn + json option" where
  "parseAnalysisTry result =
     (case JSON_parse (candidateText result) of
        None \<Rightarrow> Inl SyntaxError
      | Some parsedData \<Rightarrow>
          if parsedData = JNull then Inl TypeError
          else if isTruthy (getProperty parsedData (lit ''summary''))
                  \<and> isTruthy (getProperty parsedData (lit ''timeline''))
                  \<and> isTruthy (getProperty parsedData (lit ''insights''))
          then Inr (Some parsedData)
          else Inr None)"

text \<open>Lines 3-38: the \<open>catch\<close> of lines 34-37 returns \<open>null\<close> for every exception.\<close>

definition parseAnalysisResult :: "jsstring \<Rightarrow> json option" where
  "parseAnalysisResult result =
     (case parseAnalysisTry result of
        Inl error \<Rightarrow> None
      | Inr parsed \<Rightarrow> parsed)"

section \<open>Captured media (types/media.ts)\<close>

datatype MediaType = Photo | Video

type_synonym Blob = "nat list"

text \<open>
  \<open>CapturedMedia.geminiAnalysis\<close>. \<open>pushupData\<close> holds what \<open>parseAnalysisResult\<close>
  returned; the cast to \<open>PushupAnalysis\<close> does nothing at run time.
\<close>

record GeminiAnalysis =
  result :: jsstring
  prompt :: jsstring
  analysisTimestamp :: int
  isProcessing :: "bool option"
  error :: "jsstring option"
  pushupData :: "json option"

record CapturedMedia =
  mediaId :: jsstring
  mediaType :: MediaType
  url :: jsstring
  blob :: Blob
  mediaTimestamp :: int
  filename :: jsstring
  indexedDbId :: "jsstring option"
  geminiAnalysis :: "GeminiAnalysis option"

text \<open>
  Modelled from the spec: the declaration of \<open>StoredMediaData\<close> (utils/indexedDb) is
  not among the sources. The fields are those of the specification's durable store
  record layout, \<open>{id, kind, payload, createdAt, displayName, analysis?}\<close>, which are
  the fields of the object literals of useMediaCapture.ts lines 109-116 and 218-225
  (\<open>id\<close>, \<open>type\<close>, \<open>blob\<close>, \<open>timestamp\<close>, \<open>filename\<close>, \<open>geminiAnalysis\<close>).
\<close>

record StoredMediaData =
  storedId :: jsstring
  storedType :: MediaType
  storedBlob :: Blob
  storedTimestamp :: int
  storedFilename :: jsstring
  storedAnalysis :: "GeminiAnalysis option"

text \<open>What \<open>geminiService.processVideo\<close> resolves with (\<open>GeminiVideoProcessingResult\<close>).\<close>

record GeminiVideoProcessingResult =
  success :: bool
  responseResult :: "jsstring option"
  responseError :: "jsstring option"

section \<open>Reprocessing (utils/analysisParser.ts, lines 41-67)\<close>

text \<open>
  The condition of lines 48-51: a video whose analysis has a truthy \<open>result\<close>, a falsy
  \<open>pushupData\<close> and a falsy \<open>isProcessing\<close>.
\<close>

definition needsReprocessing :: "CapturedMedia \<Rightarrow> bool" where
  "needsReprocessing item =
     (mediaType item = Video \<and>
      (case geminiAnalysis item of
         None \<Rightarrow> False
       | Some a \<Rightarrow> result a \<noteq> [] \<and> \<not> isTruthy (pushupData a) \<and> isProcessing a \<noteq> Some True))"

text \<open>
  The loop of lines 47-60 with the counter and the state that \<open>updateCallback\<close> changes;
  \<open>reprocessAnalysis\<close> returns the counter and leaves the state.
\<close>

fun reprocessLoop ::
  "CapturedMedia list \<Rightarrow> (jsstring \<Rightarrow> json \<Rightarrow> 's \<Rightarrow> 's) \<Rightarrow> nat \<times> 's \<Rightarrow> nat \<times> 's" where
  "reprocessLoop [] updateCallback acc = acc"
| "reprocessLoop (item # rest) updateCallback (reprocessedCount, st) =
     (if needsReprocessing item then
        (case geminiAnalysis item of
           None \<Rightarrow> reprocessLoop rest updateCallback (reprocessedCount, st)
         | Some a \<Rightarrow>
             (case parseAnalysisResult (result a) of
                Some data \<Rightarrow>
                  reprocessLoop rest updateCallback
                    (reprocessedCount + 1, updateCallback (mediaId item) data st)
              | None \<Rightarrow> reprocessLoop rest updateCallback (reprocessedCount, st)))
      else reprocessLoop rest updateCallback (reprocessedCount, st))"

definition reprocessAnalysis ::
  "CapturedMedia list \<Rightarrow> (jsstring \<Rightarrow> json \<Rightarrow> 's \<Rightarrow> 's) \<Rightarrow> 's \<Rightarrow> nat \<times> 's" where
  "reprocessAnalysis media updateCallback st = reprocessLoop media updateCallback (0, st)"

section \<open>The capture controller (hooks/useMediaCapture.ts)\<close>

text \<open>
  The state of the hook and what it has asked of its collaborators: the records in
  memory, and the calls made so far, oldest first, of \<open>mediaDatabase.storeMedia\<close>,
  \<open>mediaDatabase.deleteMedia\<close> and \<open>geminiService.processVideo\<close>.
\<close>

record HookState =
  capturedMedia :: "CapturedMedia list"
  storeMediaCalls :: "StoredMediaData list"
  deleteMediaCalls :: "jsstring list"
  processVideoCalls :: "(Blob \<times> jsstring) list"

text \<open>
  The spread \<open>...m.geminiAnalysis!\<close> of lines 46 and 150. Where the analysis is absent
  the spread adds no field, and the fields read \<open>undefined\<close> afterwards; the model gives
  them the falsy values of their types.
\<close>

definition spreadAnalysis :: "GeminiAnalysis option \<Rightarrow> GeminiAnalysis" where
  "spreadAnalysis a =
     (case a of
        Some x \<Rightarrow> x
      | None \<Rightarrow> \<lparr>result = [], prompt = [], analysisTimestamp = 0, isProcessing = None,
                  error = None, pushupData = None\<rparr>)"

text \<open>Lines 40-52, the callback given to \<open>reprocessAnalysis\<close>.\<close>

definition attachPushupData :: "jsstring \<Rightarrow> json \<Rightarrow> CapturedMedia list \<Rightarrow> CapturedMedia list" where
  "attachPushupData ident data prev =
     map (\<lambda>m. if mediaId m = ident
               then m\<lparr>geminiAnalysis :=
                       Some ((spreadAnalysis (geminiAnalysis m))\<lparr>pushupData := Some data\<rparr>)\<rparr>
               else m) prev"

definition reprocessCallback :: "jsstring \<Rightarrow> json \<Rightarrow> HookState \<Rightarrow> HookState" where
  "reprocessCallback ident data st =
     st\<lparr>capturedMedia := attachPushupData ident data (capturedMedia st)\<rparr>"

text \<open>Lines 99-105 and 130-136: the update of the record with the id of \<open>media\<close>.\<close>

definition applyAnalysis :: "jsstring \<Rightarrow> GeminiAnalysis \<Rightarrow> CapturedMedia list \<Rightarrow> CapturedMedia list" where
  "applyAnalysis ident analysis prev =
     map (\<lambda>m. if mediaId m = ident then m\<lparr>geminiAnalysis := Some analysis\<rparr> else m) prev"

text \<open>Lines 144-157, the update of the \<open>catch\<close> block.\<close>

definition applyProcessingFailed :: "jsstring \<Rightarrow> CapturedMedia list \<Rightarrow> CapturedMedia list" where
  "applyProcessingFailed ident prev =
     map (\<lambda>m. if mediaId m = ident
               then m\<lparr>geminiAnalysis :=
                       Some ((spreadAnalysis (geminiAnalysis m))
                               \<lparr>isProcessing := Some False,
                                error := Some (lit ''Processing failed'')\<rparr>)\<rparr>
               else m) prev"

text \<open>Line 82.\<close>

definition inferencePrompt :: "GeminiAnalysis \<Rightarrow> jsstring" where
  "inferencePrompt a =
     (if prompt a \<noteq> [] then prompt a
      else lit ''Analyze this video and describe what you see in detail.'')"

text \<open>A storage key is used when it is there and not the empty string (line 108).\<close>

definition hasStorageKey :: "CapturedMedia \<Rightarrow> bool" where
  "hasStorageKey media = (case indexedDbId media of None \<Rightarrow> False | Some k \<Rightarrow> k \<noteq> [])"

definition toStoredData :: "CapturedMedia \<Rightarrow> GeminiAnalysis option \<Rightarrow> StoredMediaData" where
  "toStoredData media analysis =
     \<lparr>storedId = mediaId media, storedType = mediaType media, storedBlob = blob media,
      storedTimestamp = mediaTimestamp media, storedFilename = filename media,
      storedAnalysis = analysis\<rparr>"

text \<open>
  \<open>processVideoWithGemini\<close>, lines 78-159, behind the \<open>await\<close> of line 84: \<open>response\<close>
  is what the inference client resolved with, \<open>storeSucceeds\<close> tells whether the
  \<open>storeMedia\<close> of line 118 resolves, and \<open>st\<close> is the state of the hook at that moment.
  A rejected \<open>storeMedia\<close> is caught at line 140.
\<close>

definition completeProcessVideo ::
  "CapturedMedia \<Rightarrow> GeminiAnalysis \<Rightarrow> GeminiVideoProcessingResult \<Rightarrow> bool \<Rightarrow> HookState \<Rightarrow> HookState" where
  "completeProcessVideo media analysis response storeSucceeds st =
     (let errorAnalysis =
            analysis\<lparr>isProcessing := Some False,
                     error := Some (case responseError response of
                                      Some e \<Rightarrow> if e \<noteq> [] then e else lit ''Analysis failed''
                                    | None \<Rightarrow> lit ''Analysis failed'')\<rparr>;
          failed = st\<lparr>capturedMedia := applyAnalysis (mediaId media) errorAnalysis (capturedMedia st)\<rparr>
      in case responseResult response of
           None \<Rightarrow> failed
         | Some text \<Rightarrow>
             if success response \<and> text \<noteq> [] then
               (let updatedAnalysis =
                      analysis\<lparr>result := text, pushupData := parseAnalysisResult text,
                               isProcessing := Some False\<rparr>;
                    st1 = st\<lparr>capturedMedia :=
                               applyAnalysis (mediaId media) updatedAnalysis (capturedMedia st)\<rparr>
                in if hasStorageKey media then
                     (let st2 = st1\<lparr>storeMediaCalls :=
                                     storeMediaCalls st1 @ [toStoredData media (Some updatedAnalysis)]\<rparr>
                      in if storeSucceeds then st2
                         else st2\<lparr>capturedMedia :=
                                    applyProcessingFailed (mediaId media) (capturedMedia st2)\<rparr>)
                   else st1)
             else failed)"

text \<open>
  The whole of \<open>processVideoWithGemini\<close> when nothing else happens between the call of
  the inference client and its answer.
\<close>

definition processVideoWithGemini ::
  "CapturedMedia \<Rightarrow> GeminiVideoProcessingResult \<Rightarrow> bool \<Rightarrow> HookState \<Rightarrow> HookState" where
  "processVideoWithGemini media response storeSucceeds st =
     (if mediaType media \<noteq> Video then st
      else case geminiAnalysis media of
             None \<Rightarrow> st
           | Some analysis \<Rightarrow>
               completeProcessVideo media analysis response storeSucceeds
                 (st\<lparr>processVideoCalls :=
                       processVideoCalls st @ [(blob media, inferencePrompt analysis)]\<rparr>))"

text \<open>The prompt of lines 172-208.\<close>

definition structuredReportPrompt :: jsstring where
  "structuredReportPrompt = concat [
        lit ''Analyze this pushup video and provide detailed structured information. Return ONLY a valid JSON object with this exact structure:\<newline>'',
        lit ''\<newline>'',
        lit ''{\<newline>'',
        lit ''  \"summary\": {\<newline>'',
        lit ''    \"totalCount\": <number>,\<newline>'',
        lit ''    \"validPushups\": <number>,\<newline>'',
        lit ''    \"invalidPushups\": <number>,\<newline>'',
        lit ''    \"duration\": \"<MM:SS>\",\<newline>'',
        lit ''    \"averageRepsPerMinute\": <number>\<newline>'',
        lit ''  },\<newline>'',
        lit ''  \"quality\": {\<newline>'',
        lit ''    \"overallScore\": <1-10>,\<newline>'',
        lit ''    \"formNotes\": [\"<note1>\", \"<note2>\"],\<newline>'',
        lit ''    \"commonIssues\": [\"<issue1>\", \"<issue2>\"]\<newline>'',
        lit ''  },\<newline>'',
        lit ''  \"timeline\": [\<newline>'',
        lit ''    {\<newline>'',
        lit ''      \"repNumber\": <number>,\<newline>'',
        lit ''      \"timestamp\": \"<MM:SS>\",\<newline>'',
        lit ''      \"timestampSeconds\": <seconds>,\<newline>'',
        lit ''      \"quality\": \"<excellent|good|poor|invalid>\",\<newline>'',
        lit ''      \"notes\": \"<optional notes>\"\<newline>'',
        lit ''    }\<newline>'',
        lit ''  ],\<newline>'',
        lit ''  \"insights\": {\<newline>'',
        lit ''    \"bestRep\": {\<newline>'',
        lit ''      \"repNumber\": <number>,\<newline>'',
        lit ''      \"timestamp\": \"<MM:SS>\",\<newline>'',
        lit ''      \"timestampSeconds\": <seconds>,\<newline>'',
        lit ''      \"reason\": \"<explanation>\"\<newline>'',
        lit ''    },\<newline>'',
        lit ''    \"improvementAreas\": [\"<area1>\", \"<area2>\"],\<newline>'',
        lit ''    \"strengths\": [\"<strength1>\", \"<strength2>\"]\<newline>'',
        lit ''  }\<newline>'',
        lit ''}\<newline>'',
        lit ''\<newline>'',
        lit ''Focus on: rep count, form quality, timestamps, and actionable feedback. Be precise with timestamps.'']"

text \<open>
  \<open>addMedia\<close>, lines 161-249. \<open>configured\<close> is \<open>geminiService.isConfigured()\<close>, \<open>now\<close> is
  \<open>Date.now()\<close>, \<open>stored\<close> is the key \<open>storeMedia\<close> resolves with, or \<open>None\<close> when it
  rejects. The second result is the record for which \<open>processVideoWithGemini\<close> is
  started at line 241.
\<close>

definition addMedia ::
  "CapturedMedia \<Rightarrow> bool \<Rightarrow> int \<Rightarrow> jsstring option \<Rightarrow> HookState \<Rightarrow> HookState \<times> CapturedMedia option" where
  "addMedia media configured now stored st =
     (let mediaWithProcessing =
            (if mediaType media = Video \<and> configured
             then media\<lparr>geminiAnalysis :=
                          Some \<lparr>result = [], prompt = structuredReportPrompt,
                                analysisTimestamp = now, isProcessing = Some True,
                                error = None, pushupData = None\<rparr>\<rparr>
             else media);
          storedData = toStoredData mediaWithProcessing (geminiAnalysis mediaWithProcessing);
          st1 = st\<lparr>storeMediaCalls := storeMediaCalls st @ [storedData]\<rparr>
      in case stored of
           Some key \<Rightarrow>
             (let mediaWithId = mediaWithProcessing\<lparr>indexedDbId := Some key\<rparr>
              in (st1\<lparr>capturedMedia := mediaWithId # capturedMedia st1\<rparr>,
                  if mediaType media = Video \<and> configured then Some mediaWithId else None))
         | None \<Rightarrow> (st1\<lparr>capturedMedia := media # capturedMedia st1\<rparr>, None))"

text \<open>
  \<open>removeMedia\<close>, lines 251-269. Revoking the object URL of the record changes
  nothing that the model holds.
\<close>

definition removeMedia :: "jsstring \<Rightarrow> HookState \<Rightarrow> HookState" where
  "removeMedia ident st =
     (let prev = capturedMedia st;
          st1 = (case find (\<lambda>m. mediaId m = ident) prev of
                   Some mediaToRemove \<Rightarrow>
                     (case indexedDbId mediaToRemove of
                        Some k \<Rightarrow> if k \<noteq> [] then st\<lparr>deleteMediaCalls := deleteMediaCalls st @ [k]\<rparr>
                                  else st
                      | None \<Rightarrow> st)
                 | None \<Rightarrow> st)
      in st1\<lparr>capturedMedia := filter (\<lambda>m. mediaId m \<noteq> ident) prev\<rparr>)"

section \<open>What a run of the reprocessing does\<close>

text \<open>
  What the body of the loop of \<open>reprocessAnalysis\<close> gets for one record: the parsed
  report when the record passes the condition of lines 48-51 and its text parses.
\<close>

definition structuredFor :: "CapturedMedia \<Rightarrow> json option" where
  "structuredFor item =
     (if needsReprocessing item then
        (case geminiAnalysis item of
           None \<Rightarrow> None
         | Some a \<Rightarrow> parseAnalysisResult (result a))
      else None)"

text \<open>The calls of \<open>updateCallback\<close> that a run over \<open>media\<close> makes, in order.\<close>

definition reprocessUpdates :: "CapturedMedia list \<Rightarrow> (jsstring \<times> json) list" where
  "reprocessUpdates media =
     List.map_filter (\<lambda>item. map_option (Pair (mediaId item)) (structuredFor item)) media"

text \<open>The callback of the hook on one record, and a record that has a structured report.\<close>

definition attachTo :: "jsstring \<Rightarrow> json \<Rightarrow> CapturedMedia \<Rightarrow> CapturedMedia" where
  "attachTo ident data m =
     (if mediaId m = ident
      then m\<lparr>geminiAnalysis := Some ((spreadAnalysis (geminiAnalysis m))\<lparr>pushupData := Some data\<rparr>)\<rparr>
      else m)"

definition hasStructured :: "CapturedMedia \<Rightarrow> bool" where
  "hasStructured m = (case geminiAnalysis m of None \<Rightarrow> False | Some a \<Rightarrow> isTruthy (pushupData a))"

text \<open>
  useMediaCapture.ts lines 38-52: the run that the hook starts after loading, over the
  restored records, which line 34 has made the records in memory, with the callback of
  lines 39-51. The result is the count that \<open>reprocessAnalysis\<close> returns and the state that
  the calls of the callback leave.
\<close>

definition reprocessOnLoad :: "HookState \<Rightarrow> nat \<times> HookState" where
  "reprocessOnLoad st = reprocessAnalysis (capturedMedia st) reprocessCallback st"

section \<open>Playback overlay (components/PushupAnalysisOverlay.tsx)\<close>

text \<open>
  A number of the overlay is modelled as the real value of a finite double: two doubles
  compare as their values do. A sum is the exact sum rounded to the nearest double, ties
  to the double with the even significand. \<open>roundHalfEven\<close> rounds to an integer,
  \<open>binaryExponent\<close> is the exponent of the binade of a positive number, not below that
  of the subnormal doubles, and \<open>toDouble\<close> rounds to 53 significant bits. (A double
  plus one never leaves the finite range, so the overflow to \<open>Infinity\<close> is left out;
  \<open>Infinity\<close> and \<open>NaN\<close> as rep numbers or timestamps are not modelled.)
\<close>

definition roundHalfEven :: "real \<Rightarrow> int" where
  "roundHalfEven r =
     (let f = \<lfloor>r\<rfloor>; rest = r - of_int f
      in if rest < 1 / 2 then f
         else if rest > 1 / 2 then f + 1
         else if even f then f else f + 1)"

definition binaryExponent :: "real \<Rightarrow> int" where
  "binaryExponent y =
     (if y \<ge> 1 then bitlen \<lfloor>y\<rfloor> - 1
      else max (- 1022) (- bitlen (\<lceil>1 / y\<rceil> - 1)))"

definition toDouble :: "real \<Rightarrow> real" where
  "toDouble y =
     (if y = 0 then 0
      else (let unit = 2 powi (binaryExponent \<bar>y\<bar> - 52)
            in of_int (roundHalfEven (y / unit)) * unit))"

text \<open>\<open>x + 1\<close> on doubles.\<close>

definition jsAddOne :: "real \<Rightarrow> real" where
  "jsAddOne x = toDouble (x + 1)"

text \<open>One entry of \<open>PushupAnalysis.timeline\<close> (types/media.ts).\<close>

datatype Quality = Excellent | Good | Poor | Invalid

record TimelineEntry =
  repNumber :: real
  timestamp :: jsstring
  timestampSeconds :: real
  quality :: Quality
  repNotes :: "jsstring option"

text \<open>
  \<open>video.duration\<close> of an HTML media element is a number of seconds, \<open>Infinity\<close> for
  media of unknown length, or \<open>NaN\<close> before the metadata is there. \<open>js_lt\<close> is
  \<open>currentTime < nextTime\<close> for a finite left operand.
\<close>

datatype Duration = Seconds real | Infinity | NotANumber

fun js_lt :: "real \<Rightarrow> Duration \<Rightarrow> bool" where
  "js_lt t (Seconds d) = (t < d)"
| "js_lt t Infinity = True"
| "js_lt t NotANumber = False"

text \<open>
  Lines 33-34: \<open>nextRep = analysis.timeline.find(r => r.repNumber === rep.repNumber + 1)\<close>,
  \<open>nextTime = nextRep ? nextRep.timestampSeconds : video.duration\<close>.
\<close>

definition nextTime :: "TimelineEntry list \<Rightarrow> Duration \<Rightarrow> TimelineEntry \<Rightarrow> Duration" where
  "nextTime timeline duration rep =
     (case find (\<lambda>r. repNumber r = jsAddOne (repNumber rep)) timeline of
        Some nextRep \<Rightarrow> Seconds (timestampSeconds nextRep)
      | None \<Rightarrow> duration)"

text \<open>Lines 31-36: the callback of the outer \<open>find\<close> and the \<open>find\<close> itself.\<close>

definition isActiveAt :: "TimelineEntry list \<Rightarrow> Duration \<Rightarrow> real \<Rightarrow> TimelineEntry \<Rightarrow> bool" where
  "isActiveAt timeline duration currentTime rep =
     (let repTime = timestampSeconds rep;
          nextT = nextTime timeline duration rep
      in currentTime \<ge> repTime \<and> js_lt currentTime nextT)"

definition currentRep :: "TimelineEntry list \<Rightarrow> Duration \<Rightarrow> real \<Rightarrow> TimelineEntry option" where
  "currentRep timeline duration currentTime =
     find (isActiveAt timeline duration currentTime) timeline"

text \<open>The component's state (lines 18-20) and its initial value.\<close>

record OverlayState =
  currentTime :: real
  isPlaying :: bool
  activeRep :: "real option"

definition initialOverlayState :: OverlayState where
  "initialOverlayState = \<lparr>currentTime = 0, isPlaying = False, activeRep = None\<rparr>"

text \<open>
  Lines 27-39, \<open>handleTimeUpdate\<close>. The handler is a closure made by the effect of the
  render in which \<open>currentTime\<close> held the stored value; \<open>setCurrentTime\<close> only schedules
  the new value, so \<open>currentTime\<close> read in the callback of \<open>find\<close> is the stored one.
  The arguments \<open>videoCurrentTime\<close> and \<open>videoDuration\<close> are what the video element
  reports when the event fires.
\<close>

definition handleTimeUpdate ::
  "TimelineEntry list \<Rightarrow> real \<Rightarrow> Duration \<Rightarrow> OverlayState \<Rightarrow> OverlayState" where
  "handleTimeUpdate timeline videoCurrentTime videoDuration st =
     st\<lparr>currentTime := videoCurrentTime,
        activeRep :=
          (case currentRep timeline videoDuration (currentTime st) of
             Some rep \<Rightarrow> Some (repNumber rep)
           | None \<Rightarrow> None)\<rparr>"

text \<open>A run of \<open>timeupdate\<close> events, each handled after the render of the one before.\<close>

definition timeUpdates ::
  "TimelineEntry list \<Rightarrow> Duration \<Rightarrow> real list \<Rightarrow> OverlayState \<Rightarrow> OverlayState" where
  "timeUpdates timeline videoDuration videoTimes st =
     foldl (\<lambda>s t. handleTimeUpdate timeline t videoDuration s) st videoTimes"

text \<open>
  Line 141, \<open>{activeRep || '-'}\<close> (the source's placeholder is a dash): the number when it is truthy, the placeholder
  for \<open>null\<close> and for \<open>0\<close>.
\<close>

datatype Readout = RepNumberShown real | Placeholder

definition activeRepReadout :: "real option \<Rightarrow> Readout" where
  "activeRepReadout rep =
     (case rep of
        None \<Rightarrow> Placeholder
      | Some n \<Rightarrow> if n \<noteq> 0 then RepNumberShown n else Placeholder)"

text \<open>
  Lines 188-210, \<open>{activeRep && (<div> ... </div>)}\<close>: the value of the expression is
  \<open>activeRep\<close> itself when that is falsy (\<open>null\<close> or \<open>0\<close>), and otherwise the wrapper
  element, which holds the panel of the entry found by \<open>repNumber\<close>, or nothing.
\<close>

datatype InfoSlot = SlotNull | SlotNumber real | SlotWrapper "TimelineEntry option"

definition currentRepInfo :: "TimelineEntry list \<Rightarrow> real option \<Rightarrow> InfoSlot" where
  "currentRepInfo timeline rep =
     (case rep of
        None \<Rightarrow> SlotNull
      | Some n \<Rightarrow>
          if n \<noteq> 0
          then SlotWrapper (find (\<lambda>r. repNumber r = n) timeline)
          else SlotNumber n)"

definition infoPanelShown :: "InfoSlot \<Rightarrow> bool" where
  "infoPanelShown slot = (case slot of SlotWrapper (Some _) \<Rightarrow> True | _ \<Rightarrow> False)"

text \<open>Line 152, \<open>activeRep === rep.repNumber\<close>: the highlighted timeline point.\<close>

definition isHighlighted :: "real option \<Rightarrow> TimelineEntry \<Rightarrow> bool" where
  "isHighlighted rep entry = (rep = Some (repNumber entry))"

text \<open>The timeline of the specification's example: reps 1, 2 and 4 at 0, 10 and 30 seconds.\<close>

definition entryAt :: "real \<Rightarrow> real \<Rightarrow> TimelineEntry" where
  "entryAt n t =
     \<lparr>repNumber = n, timestamp = [], timestampSeconds = t, quality = Good, repNotes = None\<rparr>"

definition sparseTimeline :: "TimelineEntry list" where
  "sparseTimeline = [entryAt 1 0, entryAt 2 10, entryAt 4 30]"

section \<open>Example values\<close>

text \<open>The annotation that \<open>addMedia\<close> attaches (lines 170-211).\<close>

definition pendingAnalysis :: "int \<Rightarrow> GeminiAnalysis" where
  "pendingAnalysis now =
     \<lparr>result = [], prompt = structuredReportPrompt, analysisTimestamp = now,
      isProcessing = Some True, error = None, pushupData = None\<rparr>"

text \<open>A video as \<open>createMediaFromBlob\<close> returns it, not yet stored or analysed.\<close>

definition newClip :: CapturedMedia where
  "newClip =
     \<lparr>mediaId = lit ''video_1'', mediaType = Video, url = lit ''blob:1'',
      blob = [26, 69, 223, 163], mediaTimestamp = 1000, filename = lit ''video_1.webm'',
      indexedDbId = None, geminiAnalysis = None\<rparr>"

text \<open>The same video, stored and waiting for its analysis; a state without records.\<close>

definition pendingClip :: CapturedMedia where
  "pendingClip =
     newClip\<lparr>indexedDbId := Some (lit ''video_1''),
             geminiAnalysis := Some (pendingAnalysis 1000)\<rparr>"

definition emptyHookState :: HookState where
  "emptyHookState =
     \<lparr>capturedMedia = [], storeMediaCalls = [], deleteMediaCalls = [], processVideoCalls = []\<rparr>"

definition failedResponse :: GeminiVideoProcessingResult where
  "failedResponse =
     \<lparr>success = False, responseResult = None, responseError = Some (lit ''quota exceeded'')\<rparr>"

definition textResponse :: "jsstring \<Rightarrow> GeminiVideoProcessingResult" where
  "textResponse text = \<lparr>success = True, responseResult = Some text, responseError = None\<rparr>"

text \<open>A record with a one-letter id.\<close>

definition clip :: "nat \<Rightarrow> CapturedMedia" where
  "clip n = \<lparr>mediaId = [n], mediaType = Video, url = [], blob = [], mediaTimestamp = 0,
     filename = [], indexedDbId = None, geminiAnalysis = None\<rparr>"


text \<open>An answer of the inference client, the tree it decodes to, and a video that holds
  the answer without the structured report.\<close>

definition reportText :: jsstring where
  "reportText = lit ''```json\<newline>{\"summary\":{\"totalCount\":3},\"timeline\":[{\"repNumber\":1,\"timestampSeconds\":2}],\"insights\":{\"strengths\":[]}}\<newline>```''"

definition reportTree :: json where
  "reportTree =
     JObject [(lit ''summary'', JObject [(lit ''totalCount'', JNumber 3)]),
              (lit ''timeline'', JArray [JObject [(lit ''repNumber'', JNumber 1),
                                                  (lit ''timestampSeconds'', JNumber 2)]]),
              (lit ''insights'', JObject [(lit ''strengths'', JArray [])])]"

definition analysedClip :: CapturedMedia where
  "analysedClip =
     pendingClip\<lparr>geminiAnalysis :=
       Some ((pendingAnalysis 1000)\<lparr>result := reportText, isProcessing := Some False\<rparr>)\<rparr>"

text \<open>The report without its fence, and a report with a fence inside a string.\<close>

definition reportJson :: jsstring where
  "reportJson = lit ''{\"summary\":{\"totalCount\":3},\"timeline\":[{\"repNumber\":1,\"timestampSeconds\":2}],\"insights\":{\"strengths\":[]}}''"

definition fenceInString :: jsstring where
  "fenceInString = lit ''{\"summary\":\"```\",\"timeline\":[1],\"insights\":[1]}''"

section \<open>Properties of the playback overlay\<close>

text \<open>Adding one is exact on the integers below \<open>2^53\<close>, and not at \<open>2^53\<close>.\<close>

lemma roundHalfEven_of_int [simp]: "roundHalfEven (of_int i) = i"
  by (simp add: roundHalfEven_def)

lemma toDouble_of_int:
  assumes "\<bar>m\<bar> \<le> 2 ^ 53"
  shows "toDouble (of_int m) = of_int m"
proof (cases "m = 0")
  case True
  then show ?thesis by (simp add: toDouble_def)
next
  case False
  define a where "a = \<bar>m\<bar>"
  from False have apos: "0 < a" by (simp add: a_def)
  have abs: "\<bar>of_int m :: real\<bar> = of_int a" by (simp add: a_def)
  from apos have ge1: "(1::real) \<le> of_int a" by linarith
  then have e: "binaryExponent \<bar>of_int m\<bar> = bitlen a - 1"
    by (simp add: abs binaryExponent_def)
  from assms have "a < 2 ^ 54" by (simp add: a_def)
  then have b54: "bitlen a \<le> 54"
    by (simp add: bitlen_le_iff_power)
  from apos have b1: "1 \<le> bitlen a"
    by (simp add: bitlen_ge_iff_power)
  show ?thesis
  proof (cases "bitlen a \<le> 53")
    case True
    define k where "k = nat (53 - bitlen a)"
    from True have u: "(2::real) powi (bitlen a - 53) = 1 / 2 ^ k"
      by (cases "bitlen a = 53") (simp_all add: power_int_def k_def field_simps)
    have q: "roundHalfEven (of_int m * 2 ^ k) = m * 2 ^ k"
      using roundHalfEven_of_int [of "m * 2 ^ k"] by simp
    show ?thesis
      using False by (simp add: toDouble_def e u Let_def q)
  next
    case False
    with b54 have b: "bitlen a = 54" by simp
    then have "2 ^ 53 \<le> a"
      using bitlen_ge_iff_power [of 54 a] by simp
    with assms have a53: "a = 2 ^ 53" by (simp add: a_def)
    then have "m = 2 ^ 53 \<or> m = - (2 ^ 53)"
      by (auto simp: a_def abs_if split: if_splits)
    then have q: "(of_int m :: real) / 2 = of_int (m div 2)"
      by auto
    have u: "(2::real) powi (bitlen a - 53) = 2"
      by (simp add: b)
    show ?thesis
      using \<open>m \<noteq> 0\<close> \<open>m = 2 ^ 53 \<or> m = - (2 ^ 53)\<close>
      by (simp add: toDouble_def e u Let_def q del: of_int_mult of_int_power) auto
  qed
qed

lemma jsAddOne_of_int:
  "\<bar>n\<bar> < 2 ^ 53 \<Longrightarrow> jsAddOne (of_int n) = of_int n + 1"
  using toDouble_of_int [of "n + 1"] by (simp add: jsAddOne_def)

lemma bitlen_big: "bitlen 9007199254740993 = 54"
proof -
  have "bitlen 9007199254740993 \<le> 54"
    by (simp add: bitlen_le_iff_power)
  moreover have "54 \<le> bitlen 9007199254740993"
    by (simp add: bitlen_ge_iff_power)
  ultimately show ?thesis by simp
qed

lemma jsAddOne_big: "jsAddOne 9007199254740992 = 9007199254740992"
proof -
  have f: "\<lfloor>9007199254740993 / 2 :: real\<rfloor> = 4503599627370496"
    by (simp add: floor_eq_iff)
  show ?thesis
    by (simp add: jsAddOne_def toDouble_def binaryExponent_def bitlen_big roundHalfEven_def f Let_def)
qed

lemma jsAddOne_small [simp]:
  "jsAddOne 0 = 1" "jsAddOne 1 = 2" "jsAddOne 2 = 3" "jsAddOne 4 = 5"
  using jsAddOne_of_int [of 0] jsAddOne_of_int [of 1] jsAddOne_of_int [of 2]
    jsAddOne_of_int [of 4]
  by simp_all

lemma sparse_at_5: "currentRep sparseTimeline (Seconds 40) 5 = Some (entryAt 1 0)"
  by (simp add: currentRep_def isActiveAt_def nextTime_def sparseTimeline_def entryAt_def)

lemma sparse_at_20: "currentRep sparseTimeline (Seconds 40) 20 = Some (entryAt 2 10)"
  by (simp add: currentRep_def isActiveAt_def nextTime_def sparseTimeline_def entryAt_def)

lemma sparse_at_35: "currentRep sparseTimeline (Seconds 40) 35 = Some (entryAt 2 10)"
  by (simp add: currentRep_def isActiveAt_def nextTime_def sparseTimeline_def entryAt_def)

lemma sparse_rep4_interval:
  "isActiveAt sparseTimeline (Seconds 40) t (entryAt 4 30) \<longleftrightarrow> 30 \<le> t \<and> t < 40"
  by (simp add: isActiveAt_def nextTime_def sparseTimeline_def entryAt_def)

text \<open>
  Claim C6 as it is stated fails at a rep number where adding one is not exact. In the
  timeline of the one entry with \<open>repNumber\<close> \<open>2^53\<close> at 0 seconds no entry has a
  \<open>repNumber\<close> one greater, so the claim's interval of the entry is \<open>[0,40)\<close> for a
  duration of 40; but \<open>2^53 + 1\<close> is \<open>2^53\<close> on doubles, the entry is found as its own
  successor, and the selection at 5 is none.
\<close>

theorem unsafe_rep_number_counterexample:
  "timestampSeconds (entryAt 9007199254740992 0) \<le> 5
   \<and> js_lt 5 (Seconds 40)
   \<and> repNumber (entryAt 9007199254740992 0) \<noteq> repNumber (entryAt 9007199254740992 0) + 1
   \<and> currentRep [entryAt 9007199254740992 0] (Seconds 40) 5 = None"
  by (simp add: currentRep_def isActiveAt_def nextTime_def entryAt_def jsAddOne_big)

text \<open>
  Claim C6, amended. The active-rep selection returns the first entry in timeline order
  with \<open>timestampSeconds \<le> currentTime < upper bound\<close>, where the upper bound is the
  \<open>timestampSeconds\<close> of the first entry whose \<open>repNumber\<close> equals the candidate's
  \<open>repNumber + 1\<close> as the addition of doubles gives it, or the duration of the video when
  there is none; for an integer \<open>repNumber\<close> below \<open>2^53\<close> in magnitude that sum is the
  number exactly one greater. The selection is none when no entry satisfies the lower
  bound. For the timeline \<open>[{rep:1,t:0},{rep:2,t:10},{rep:4,t:30}]\<close> and duration 40 the
  selection at 20 and at 35 is rep 2, and the interval of rep 4 is \<open>[30,40)\<close>.
\<close>

theorem activeRep_selection:
  "(currentRep timeline duration t = Some rep \<longleftrightarrow>
      (\<exists>i < length timeline. timeline ! i = rep
          \<and> isActiveAt timeline duration t rep
          \<and> (\<forall>j < i. \<not> isActiveAt timeline duration t (timeline ! j))))
   \<and> (isActiveAt timeline duration t rep \<longleftrightarrow>
        timestampSeconds rep \<le> t \<and>
        js_lt t (case find (\<lambda>r. repNumber r = jsAddOne (repNumber rep)) timeline of
                   Some nextRep \<Rightarrow> Seconds (timestampSeconds nextRep)
                 | None \<Rightarrow> duration))
   \<and> (\<forall>n::int. \<bar>n\<bar> < 2 ^ 53 \<longrightarrow> jsAddOne (of_int n) = of_int n + 1)
   \<and> ((\<forall>rep \<in> set timeline. \<not> timestampSeconds rep \<le> t)
        \<longrightarrow> currentRep timeline duration t = None)
   \<and> map_option repNumber (currentRep sparseTimeline (Seconds 40) 20) = Some 2
   \<and> map_option repNumber (currentRep sparseTimeline (Seconds 40) 35) = Some 2
   \<and> (\<forall>u. isActiveAt sparseTimeline (Seconds 40) u (entryAt 4 30) \<longleftrightarrow> 30 \<le> u \<and> u < 40)"
proof -
  have first: "currentRep timeline duration t = Some rep \<longleftrightarrow>
      (\<exists>i < length timeline. timeline ! i = rep
          \<and> isActiveAt timeline duration t rep
          \<and> (\<forall>j < i. \<not> isActiveAt timeline duration t (timeline ! j)))"
    by (auto simp: currentRep_def find_Some_iff)
  have active: "isActiveAt timeline duration t rep \<longleftrightarrow>
        timestampSeconds rep \<le> t \<and>
        js_lt t (case find (\<lambda>r. repNumber r = jsAddOne (repNumber rep)) timeline of
                   Some nextRep \<Rightarrow> Seconds (timestampSeconds nextRep)
                 | None \<Rightarrow> duration)"
    by (simp add: isActiveAt_def nextTime_def)
  have none: "(\<forall>rep \<in> set timeline. \<not> timestampSeconds rep \<le> t)
        \<longrightarrow> currentRep timeline duration t = None"
    by (auto simp: currentRep_def isActiveAt_def find_None_iff)
  have ex20: "map_option repNumber (currentRep sparseTimeline (Seconds 40) 20) = Some 2"
    by (simp add: sparse_at_20 entryAt_def)
  have ex35: "map_option repNumber (currentRep sparseTimeline (Seconds 40) 35) = Some 2"
    by (simp add: sparse_at_35 entryAt_def)
  from first active none ex20 ex35 sparse_rep4_interval jsAddOne_of_int show ?thesis
    by blast
qed

theorem activeRep_selection_witness:
  "currentRep sparseTimeline (Seconds 40) 35 = Some (entryAt 2 10)
   \<and> isActiveAt sparseTimeline (Seconds 40) 35 (entryAt 2 10)
   \<and> timestampSeconds (entryAt 2 10) \<le> 35
   \<and> jsAddOne (of_int 2) = of_int 2 + 1
   \<and> currentRep sparseTimeline (Seconds 40) (-1) = None"
proof -
  have low: "\<forall>rep \<in> set sparseTimeline. \<not> timestampSeconds rep \<le> -1"
    by (simp add: sparseTimeline_def entryAt_def)
  have small: "\<bar>2 :: int\<bar> < 2 ^ 53"
    by simp
  from activeRep_selection [of sparseTimeline "Seconds 40" 35 "entryAt 2 10"]
       activeRep_selection [of sparseTimeline "Seconds 40" "-1"] low small sparse_at_35
  show ?thesis by blast
qed

text \<open>
  Claim C9. The time-update handler stores the new time of the video element, and
  computes the active rep of the same invocation from the time stored before; after a
  run of updates the displayed rep is the one of the time before the last, so for the
  example timeline an update to 20 coming after an update to 5 shows rep 1, not rep 2.
\<close>

theorem handleTimeUpdate_lags:
  "currentTime (handleTimeUpdate timeline t duration st) = t
   \<and> activeRep (handleTimeUpdate timeline t duration st) =
       map_option repNumber (currentRep timeline duration (currentTime st))
   \<and> activeRep (timeUpdates timeline duration (ts @ [t_prev, t]) st) =
       map_option repNumber (currentRep timeline duration t_prev)
   \<and> activeRep (timeUpdates sparseTimeline (Seconds 40) [5, 20] initialOverlayState) = Some 1
   \<and> map_option repNumber (currentRep sparseTimeline (Seconds 40) 20) = Some 2"
proof -
  have one: "activeRep (handleTimeUpdate tl t d st) =
       map_option repNumber (currentRep tl d (currentTime st))" for tl t d st
    by (simp add: handleTimeUpdate_def split: option.split)
  have cur: "currentTime (handleTimeUpdate tl t d st) = t" for tl t d st
    by (simp add: handleTimeUpdate_def)
  have run: "activeRep (timeUpdates timeline duration (ts @ [t_prev, t]) st) =
       map_option repNumber (currentRep timeline duration t_prev)"
    by (simp add: timeUpdates_def one cur)
  have ex: "activeRep (timeUpdates sparseTimeline (Seconds 40) [5, 20] initialOverlayState) = Some 1"
    by (simp add: timeUpdates_def one cur sparse_at_5 entryAt_def)
  have ex20: "map_option repNumber (currentRep sparseTimeline (Seconds 40) 20) = Some 2"
    by (simp add: sparse_at_20 entryAt_def)
  from one cur run ex ex20 show ?thesis by simp
qed

lemma zero_entry_selected:
  "currentRep [entryAt 0 0] (Seconds 40) (currentTime initialOverlayState) = Some (entryAt 0 0)"
  by (simp add: currentRep_def isActiveAt_def nextTime_def entryAt_def initialOverlayState_def)

lemma zero_entry_stored:
  "activeRep (handleTimeUpdate [entryAt 0 0] 1 (Seconds 40) initialOverlayState) = Some 0"
  by (simp add: handleTimeUpdate_def zero_entry_selected) (simp add: entryAt_def)

text \<open>
  Claim C10 as it is stated fails: with the entry of \<open>repNumber\<close> 0 selected the overlay
  does not render as if no rep were active. The timeline point of the entry is
  highlighted by the strict comparison of line 152, which it is not when no rep is
  active, and the expression of line 188 has the value \<open>0\<close>, not \<open>null\<close>.
\<close>

theorem zero_rep_highlighted_counterexample:
  "activeRep (handleTimeUpdate [entryAt 0 0] 1 (Seconds 40) initialOverlayState) = Some 0
   \<and> isHighlighted (Some 0) (entryAt 0 0)
   \<and> \<not> isHighlighted None (entryAt 0 0)
   \<and> currentRepInfo [entryAt 0 0] (Some 0) = SlotNumber 0
   \<and> currentRepInfo [entryAt 0 0] None = SlotNull"
  by (simp add: zero_entry_stored isHighlighted_def currentRepInfo_def)
     (simp add: entryAt_def)

text \<open>
  Claim C10, amended. When the entry selected as active has \<open>repNumber\<close> 0, the readout
  of the active rep is the placeholder, as it is when no rep is active, and the panel of
  the current rep is not shown, since both test the stored number for truthiness; the
  expression of the panel has the value \<open>0\<close>, and the timeline point of the entry is
  still highlighted, since it is compared with the stored number by \<open>===\<close>.
\<close>

theorem zero_rep_renders_inactive:
  "currentRep timeline duration (currentTime st) = Some rep \<Longrightarrow> repNumber rep = 0 \<Longrightarrow>
   activeRep (handleTimeUpdate timeline t duration st) = Some 0
   \<and> activeRepReadout (activeRep (handleTimeUpdate timeline t duration st)) = Placeholder
   \<and> activeRepReadout (activeRep (handleTimeUpdate timeline t duration st)) = activeRepReadout None
   \<and> \<not> infoPanelShown (currentRepInfo timeline (activeRep (handleTimeUpdate timeline t duration st)))
   \<and> currentRepInfo timeline (activeRep (handleTimeUpdate timeline t duration st)) = SlotNumber 0
   \<and> isHighlighted (activeRep (handleTimeUpdate timeline t duration st)) rep
   \<and> \<not> isHighlighted None rep"
  by (simp add: handleTimeUpdate_def activeRepReadout_def currentRepInfo_def infoPanelShown_def
      isHighlighted_def)

theorem zero_rep_renders_inactive_witness:
  "repNumber (entryAt 0 0) = 0
   \<and> activeRep (handleTimeUpdate [entryAt 0 0] 1 (Seconds 40) initialOverlayState) = Some 0
   \<and> activeRepReadout (activeRep (handleTimeUpdate [entryAt 0 0] 1 (Seconds 40) initialOverlayState))
       = Placeholder
   \<and> \<not> infoPanelShown (currentRepInfo [entryAt 0 0]
         (activeRep (handleTimeUpdate [entryAt 0 0] 1 (Seconds 40) initialOverlayState)))
   \<and> isHighlighted (activeRep (handleTimeUpdate [entryAt 0 0] 1 (Seconds 40) initialOverlayState))
         (entryAt 0 0)"
proof -
  have zero: "repNumber (entryAt 0 0) = 0"
    by (simp add: entryAt_def)
  from zero_rep_renders_inactive [OF zero_entry_selected zero, of 1] zero show ?thesis by blast
qed

section \<open>Properties of the analysis parser\<close>

lemma lit_eq_iff [simp]: "lit a = lit b \<longleftrightarrow> a = b"
  by (simp add: lit_def inj_map_eq_map inj_on_def)

lemma lit_Nil_iff [simp]: "lit a = [] \<longleftrightarrow> a = []"
  by (simp add: lit_def)

lemma parseAnalysisResult_Some_iff:
  "parseAnalysisResult s = Some tree \<longleftrightarrow>
     JSON_parse (candidateText s) = Some tree
     \<and> isTruthy (getProperty tree (lit ''summary''))
     \<and> isTruthy (getProperty tree (lit ''timeline''))
     \<and> isTruthy (getProperty tree (lit ''insights''))"
  by (auto simp: parseAnalysisResult_def parseAnalysisTry_def isTruthy_def
      split: option.splits sum.splits if_splits)

lemma isTruthy_getProperty_object:
  "isTruthy (getProperty tree k) \<Longrightarrow> \<exists>kvs. tree = JObject kvs"
  by (cases tree) (simp_all add: isTruthy_def)

lemma parseAnalysisResult_truthy: "parseAnalysisResult s = Some tree \<Longrightarrow> truthy tree"
  by (auto simp: parseAnalysisResult_Some_iff dest: isTruthy_getProperty_object)

text \<open>
  Claim C3. \<open>parseAnalysisResult\<close> returns \<open>null\<close> when the narrowed text does not
  decode, when the decoded tree lacks \<open>summary\<close>, \<open>timeline\<close> or \<open>insights\<close>, and
  whenever the \<open>try\<close> block throws, as it does for a text that decodes to \<open>null\<close>:
  no exception leaves the function.
\<close>

theorem parse_absent:
  "(JSON_parse (candidateText s) = None \<longrightarrow> parseAnalysisResult s = None)
   \<and> (\<forall>tree. JSON_parse (candidateText s) = Some tree
         \<and> (getProperty tree (lit ''summary'') = None
            \<or> getProperty tree (lit ''timeline'') = None
            \<or> getProperty tree (lit ''insights'') = None)
        \<longrightarrow> parseAnalysisResult s = None)
   \<and> (\<forall>e. parseAnalysisTry s = Inl e \<longrightarrow> parseAnalysisResult s = None)
   \<and> (JSON_parse (candidateText s) = Some JNull \<longrightarrow>
        parseAnalysisTry s = Inl TypeError \<and> parseAnalysisResult s = None)"
  by (auto simp: parseAnalysisResult_def parseAnalysisTry_def isTruthy_def
      split: option.splits sum.splits if_splits)

lemma prose_does_not_decode: "JSON_parse (candidateText (lit ''Sorry, no reps seen.'')) = None"
  by code_simp

lemma fenced_report_decodes: "JSON_parse (candidateText (lit ''```json\<newline>{\"summary\":{\"totalCount\":3},\"timeline\":[]}\<newline>```''))
   = Some (JObject [(lit ''summary'', JObject [(lit ''totalCount'', JNumber 3)]), (lit ''timeline'', JArray [])])"
  by code_simp

lemma null_decodes: "JSON_parse (candidateText (lit ''null'')) = Some JNull"
  by code_simp

lemma fenced_report_lacks_insights: "getProperty (JObject [(lit ''summary'', JObject [(lit ''totalCount'', JNumber 3)]), (lit ''timeline'', JArray [])]) (lit ''insights'') = None"
  by code_simp

theorem parse_absent_witness:
  "parseAnalysisResult (lit ''Sorry, no reps seen.'') = None
   \<and> parseAnalysisResult (lit ''```json\<newline>{\"summary\":{\"totalCount\":3},\"timeline\":[]}\<newline>```'') = None
   \<and> parseAnalysisTry (lit ''null'') = Inl TypeError
   \<and> parseAnalysisResult (lit ''null'') = None"
  using parse_absent [of "lit ''Sorry, no reps seen.''"]
        parse_absent [of "lit ''```json\<newline>{\"summary\":{\"totalCount\":3},\"timeline\":[]}\<newline>```''"]
        parse_absent [of "lit ''null''"]
        prose_does_not_decode fenced_report_decodes fenced_report_lacks_insights null_decodes
  by blast

lemma falsy_tree:
  "JSON_parse (candidateText (lit ''{\"summary\":0,\"timeline\":[],\"insights\":{}}''))
     = Some (JObject [(lit ''summary'', JNumber 0), (lit ''timeline'', JArray []),
                      (lit ''insights'', JObject [])])"
  by code_simp

lemma falsy_tree_keys:
  "map_of [(lit ''summary'', JNumber 0), (lit ''timeline'', JArray []),
           (lit ''insights'', JObject [])] (lit ''summary'') = Some (JNumber 0)"
  "map_of [(lit ''summary'', JNumber 0), (lit ''timeline'', JArray []),
           (lit ''insights'', JObject [])] (lit ''timeline'') = Some (JArray [])"
  "map_of [(lit ''summary'', JNumber 0), (lit ''timeline'', JArray []),
           (lit ''insights'', JObject [])] (lit ''insights'') = Some (JObject [])"
  by simp_all

text \<open>
  Claim C2 as it is stated fails: the text \<open>{"summary":0,"timeline":[],"insights":{}}\<close>
  decodes to a tree that has the three keys, and the result is \<open>null\<close>, since the
  value of \<open>summary\<close> is falsy.
\<close>

theorem present_falsy_key_counterexample:
  "JSON_parse (candidateText (lit ''{\"summary\":0,\"timeline\":[],\"insights\":{}}''))
     = Some (JObject [(lit ''summary'', JNumber 0), (lit ''timeline'', JArray []),
                      (lit ''insights'', JObject [])])
   \<and> getProperty (JObject [(lit ''summary'', JNumber 0), (lit ''timeline'', JArray []),
                      (lit ''insights'', JObject [])]) (lit ''summary'') = Some (JNumber 0)
   \<and> getProperty (JObject [(lit ''summary'', JNumber 0), (lit ''timeline'', JArray []),
                      (lit ''insights'', JObject [])]) (lit ''timeline'') = Some (JArray [])
   \<and> getProperty (JObject [(lit ''summary'', JNumber 0), (lit ''timeline'', JArray []),
                      (lit ''insights'', JObject [])]) (lit ''insights'') = Some (JObject [])
   \<and> parseAnalysisResult (lit ''{\"summary\":0,\"timeline\":[],\"insights\":{}}'') = None"
  by (simp add: falsy_tree falsy_tree_keys parseAnalysisResult_def parseAnalysisTry_def
      isTruthy_def)

text \<open>
  Claim C2, amended. \<open>parseAnalysisResult\<close> returns a tree exactly when the narrowed
  text decodes to that tree and the values of \<open>summary\<close>, \<open>timeline\<close> and
  \<open>insights\<close> in it are truthy (present, and not \<open>null\<close>, \<open>false\<close>, \<open>0\<close> or the
  empty string); the tree is returned as it was decoded, whatever else it holds.
\<close>

theorem truthy_keys_accepted:
  "parseAnalysisResult s = Some tree \<longleftrightarrow>
     JSON_parse (candidateText s) = Some tree
     \<and> isTruthy (getProperty tree (lit ''summary''))
     \<and> isTruthy (getProperty tree (lit ''timeline''))
     \<and> isTruthy (getProperty tree (lit ''insights''))"
  by (rule parseAnalysisResult_Some_iff)

lemma lenient_tree: "JSON_parse (candidateText (lit ''Result: {\"summary\":\"two\",\"timeline\":1e-2,\"insights\":[null]} Done.''))
   = Some (JObject [(lit ''summary'', JString (lit ''two'')), (lit ''timeline'', JNumber (1/100)), (lit ''insights'', JArray [JNull])])"
  by code_simp

lemma lenient_keys:
  "isTruthy (getProperty (JObject [(lit ''summary'', JString (lit ''two'')), (lit ''timeline'', JNumber (1/100)), (lit ''insights'', JArray [JNull])]) (lit ''summary''))
  \<and> isTruthy (getProperty (JObject [(lit ''summary'', JString (lit ''two'')), (lit ''timeline'', JNumber (1/100)), (lit ''insights'', JArray [JNull])]) (lit ''timeline''))
  \<and> isTruthy (getProperty (JObject [(lit ''summary'', JString (lit ''two'')), (lit ''timeline'', JNumber (1/100)), (lit ''insights'', JArray [JNull])]) (lit ''insights''))"
  by (simp add: isTruthy_def)

theorem truthy_keys_accepted_witness:
  "parseAnalysisResult (lit ''Result: {\"summary\":\"two\",\"timeline\":1e-2,\"insights\":[null]} Done.'')
    = Some (JObject [(lit ''summary'', JString (lit ''two'')), (lit ''timeline'', JNumber (1/100)), (lit ''insights'', JArray [JNull])])"
  using truthy_keys_accepted [of "lit ''Result: {\"summary\":\"two\",\"timeline\":1e-2,\"insights\":[null]} Done.''"
      "JObject [(lit ''summary'', JString (lit ''two'')), (lit ''timeline'', JNumber (1/100)), (lit ''insights'', JArray [JNull])]"]
    lenient_tree lenient_keys
  by blast


text \<open>The text steps of lines 5-16 on a text in which a report is embedded.\<close>

lemma prefix_append_Cons_notin:
  "c \<notin> set p \<Longrightarrow> prefix p (a @ c # r) \<longleftrightarrow> prefix p a"
  by (auto simp: prefix_append prefix_Cons)

lemma stripPrefix_append_Cons:
  "c \<notin> set p \<Longrightarrow>
   stripPrefix p (a @ c # r) = map_option (\<lambda>t. t @ c # r) (stripPrefix p a)"
  by (auto simp: stripPrefix_def prefix_append_Cons_notin dest: prefix_length_le)

lemma optionally_append_Cons:
  "c \<notin> set p \<Longrightarrow> optionally p (a @ c # r) = optionally p a @ c # r"
  by (simp add: optionally_def stripPrefix_append_Cons split: option.splits)

lemma matchFence_append_Cons:
  "c \<notin> set (lit ''`json\<newline>'') \<Longrightarrow>
   matchFence (a @ c # r) = map_option (\<lambda>t. t @ c # r) (matchFence a)"
  by (simp add: matchFence_def stripPrefix_append_Cons optionally_append_Cons lit_def
      split: option.splits)

lemma matchFence_Nil [simp]: "matchFence [] = None"
  by (simp add: matchFence_def stripPrefix_def lit_def)

lemma stripFences_append_Cons:
  "c \<notin> set (lit ''`json\<newline>'') \<Longrightarrow>
   stripFences (a @ c # r) = stripFences a @ c # stripFences r"
proof (induction a rule: stripFences.induct)
  case 1
  with matchFence_append_Cons [of c "[]" r] show ?case
    by simp
next
  case (2 x xs)
  with matchFence_append_Cons [of c "x # xs" r] show ?case
    by (cases "matchFence (x # xs)") simp_all
qed

lemma set_stripPrefix: "stripPrefix p s = Some r \<Longrightarrow> set r \<subseteq> set s"
  by (auto simp: stripPrefix_def split: if_splits dest: in_set_dropD)

lemma set_optionally: "set (optionally p s) \<subseteq> set s"
  by (auto simp: optionally_def split: option.splits dest: set_stripPrefix)

lemma set_matchFence: "matchFence s = Some r \<Longrightarrow> set r \<subseteq> set s"
  using set_optionally
  by (fastforce simp: matchFence_def split: option.splits dest: set_stripPrefix)

lemma set_stripFences: "set (stripFences s) \<subseteq> set s"
proof (induction s rule: stripFences.induct)
  case 1
  show ?case by simp
next
  case (2 x xs)
  show ?case
  proof (cases "matchFence (x # xs)")
    case None
    with 2 show ?thesis by auto
  next
    case (Some rest)
    with 2 set_matchFence [OF Some] show ?thesis by auto
  qed
qed

lemma stripPrefix_sublist: "stripPrefix p s = Some r \<Longrightarrow> sublist p s"
  by (auto simp: stripPrefix_def split: if_splits)

lemma matchFence_sublist: "matchFence s = Some r \<Longrightarrow> sublist (lit ''```'') s"
proof -
  assume m: "matchFence s = Some r"
  have a: "sublist (lit ''```'') (lit ''```json'')"
    by (simp add: lit_def sublist_Cons_right)
  have b: "sublist (lit ''```'') (lit ''\<newline>```'')"
    by (simp add: lit_def sublist_Cons_right)
  from m consider "sublist (lit ''```json'') s" | "sublist (lit ''\<newline>```'') s"
    | "sublist (lit ''```'') s"
    by (auto simp: matchFence_def split: option.splits dest: stripPrefix_sublist)
  then show ?thesis
    using a b by cases (auto intro: sublist_order.order_trans)
qed

lemma stripFences_no_fence: "\<not> sublist (lit ''```'') s \<Longrightarrow> stripFences s = s"
proof (induction s)
  case Nil
  show ?case by simp
next
  case (Cons x xs)
  from Cons.prems have none: "matchFence (x # xs) = None"
    using matchFence_sublist by (cases "matchFence (x # xs)") auto
  from Cons.prems have "\<not> sublist (lit ''```'') xs"
    by (auto simp: sublist_Cons_right)
  with Cons.IH none show ?case by simp
qed

lemma suffix_append_Cons_notin:
  "c \<notin> set q \<Longrightarrow> suffix q (x @ c # b) \<longleftrightarrow> suffix q b"
  using prefix_append_Cons_notin [of c "rev q" "rev b" "rev x"]
  by (simp add: suffix_to_prefix)

lemma take_framed:
  "n \<le> length b \<Longrightarrow> take (length (x @ b) - n) (x @ b) = x @ take (length b - n) b"
  by simp

lemma trim_framed:
  assumes "\<not> isWhiteSpace c" "\<not> isWhiteSpace d"
  shows "trim (a @ c # body @ d # b) =
           dropWhile isWhiteSpace a @ c # body @ d # rev (dropWhile isWhiteSpace (rev b))"
  using assms by (simp add: trim_def dropWhile_append3)

lemma stripEdgeFences_framed:
  assumes "c \<notin> set (lit ''`\<newline>'')" "d \<notin> set (lit ''`\<newline>'')"
  shows "\<exists>a' b'. stripEdgeFences (a @ c # body @ d # b) = a' @ c # body @ d # b'
           \<and> set a' \<subseteq> set a \<and> set b' \<subseteq> set b"
proof -
  define a' where "a' = (case stripPrefix (lit ''```'') a of
                         Some rest \<Rightarrow> optionally (lit ''\<newline>'') rest | None \<Rightarrow> a)"
  define b' where "b' = (if suffix (lit ''\<newline>```'') b then take (length b - 4) b
                         else if suffix (lit ''```'') b then take (length b - 3) b else b)"
  have sa: "set a' \<subseteq> set a"
    using set_optionally set_stripPrefix
    by (fastforce simp: a'_def split: option.splits)
  have sb: "set b' \<subseteq> set b"
    by (auto simp: b'_def dest: in_set_takeD)
  have left: "(case stripPrefix (lit ''```'') (a @ c # body @ d # b) of
                 Some rest \<Rightarrow> optionally (lit ''\<newline>'') rest
               | None \<Rightarrow> a @ c # body @ d # b) = a' @ c # body @ d # b"
    using assms(1)
    by (simp add: a'_def stripPrefix_append_Cons optionally_append_Cons lit_def
        split: option.splits)
  have s4: "suffix (lit ''\<newline>```'') ((a' @ c # body @ [d]) @ b) \<longleftrightarrow> suffix (lit ''\<newline>```'') b"
    using assms(2) suffix_append_Cons_notin [of d "lit ''\<newline>```''" "a' @ c # body" b]
    by (simp add: lit_def)
  have s3: "suffix (lit ''```'') ((a' @ c # body @ [d]) @ b) \<longleftrightarrow> suffix (lit ''```'') b"
    using assms(2) suffix_append_Cons_notin [of d "lit ''```''" "a' @ c # body" b]
    by (simp add: lit_def)
  have l4: "suffix (lit ''\<newline>```'') b \<Longrightarrow> 4 \<le> length b"
    by (auto simp: suffix_def lit_def)
  have l3: "suffix (lit ''```'') b \<Longrightarrow> 3 \<le> length b"
    by (auto simp: suffix_def lit_def)
  have r: "a' @ c # body @ d # b = (a' @ c # body @ [d]) @ b"
    by simp
  have "stripEdgeFences (a @ c # body @ d # b) = (a' @ c # body @ [d]) @ b'"
  proof (cases "suffix (lit ''\<newline>```'') b")
    case True
    with s4 l4 take_framed [of 4 b "a' @ c # body @ [d]"] show ?thesis
      unfolding stripEdgeFences_def left Let_def b'_def r by simp
  next
    case n4: False
    show ?thesis
    proof (cases "suffix (lit ''```'') b")
      case True
      with n4 s4 s3 l3 take_framed [of 3 b "a' @ c # body @ [d]"] show ?thesis
        unfolding stripEdgeFences_def left Let_def b'_def r by simp
    next
      case False
      with n4 s4 s3 show ?thesis
        unfolding stripEdgeFences_def left Let_def b'_def r by simp
    qed
  qed
  then have "stripEdgeFences (a @ c # body @ d # b) = a' @ c # body @ d # b'"
    by simp
  with sa sb show ?thesis by blast
qed

lemma stripJsonTag_framed:
  assumes "c \<notin> set (lit ''json'')" "\<not> isWhiteSpace c"
  shows "\<exists>a'. stripJsonTag (a @ c # r) = a' @ c # r \<and> set a' \<subseteq> set a"
proof (cases "stripPrefix (lit ''json'') a")
  case None
  with assms show ?thesis
    by (simp add: stripJsonTag_def stripPrefix_append_Cons)
next
  case (Some rest)
  with assms have "stripJsonTag (a @ c # r) = dropWhile isWhiteSpace rest @ c # r"
    by (simp add: stripJsonTag_def stripPrefix_append_Cons dropWhile_append3)
  moreover have "set (dropWhile isWhiteSpace rest) \<subseteq> set a"
    using set_stripPrefix [OF Some] by (auto dest: set_dropWhileD)
  ultimately show ?thesis by blast
qed

lemma matchBraces_framed:
  assumes "ch CHR ''{'' \<notin> set a" "ch CHR ''}'' \<notin> set b"
  shows "matchBraces (a @ ch CHR ''{'' # body @ ch CHR ''}'' # b)
           = Some (ch CHR ''{'' # body @ [ch CHR ''}''])"
proof -
  have fromOpen: "dropWhile (\<lambda>c. c \<noteq> ch CHR ''{'') (a @ ch CHR ''{'' # body @ ch CHR ''}'' # b)
               = ch CHR ''{'' # body @ ch CHR ''}'' # b"
    using assms(1) by (subst dropWhile_append2) auto
  have toClose: "dropWhile (\<lambda>c. c \<noteq> ch CHR ''}'') (rev b @ ch CHR ''}'' # rev body @ [ch CHR ''{''])
               = ch CHR ''}'' # rev body @ [ch CHR ''{'']"
    using assms(2) by (subst dropWhile_append2) auto
  show ?thesis
    unfolding matchBraces_def Let_def fromOpen
    using toClose by simp
qed

lemma candidateText_framed:
  assumes pre: "ch CHR ''{'' \<notin> set pre"
      and suf: "ch CHR ''}'' \<notin> set suf"
  shows "candidateText (pre @ ch CHR ''{'' # body @ ch CHR ''}'' # suf)
           = ch CHR ''{'' # stripFences body @ [ch CHR ''}'']"
proof -
  let ?ob = "ch CHR ''{''" and ?cb = "ch CHR ''}''"
  define inner where "inner = stripFences body"
  define a1 where "a1 = dropWhile isWhiteSpace pre"
  define b1 where "b1 = rev (dropWhile isWhiteSpace (rev suf))"
  have t: "trim (pre @ ?ob # body @ ?cb # suf) = a1 @ ?ob # body @ ?cb # b1"
    unfolding a1_def b1_def by (rule trim_framed) (simp_all add: isWhiteSpace_def)
  have s1: "set a1 \<subseteq> set pre" "set b1 \<subseteq> set suf"
    by (auto simp: a1_def b1_def dest: set_dropWhileD)
  have f: "stripFences (a1 @ ?ob # body @ ?cb # b1)
             = stripFences a1 @ ?ob # inner @ ?cb # stripFences b1"
    by (simp add: stripFences_append_Cons lit_def inner_def)
  obtain a3 b3 where e: "stripEdgeFences (stripFences a1 @ ?ob # inner @ ?cb # stripFences b1)
                           = a3 @ ?ob # inner @ ?cb # b3"
    and s3: "set a3 \<subseteq> set (stripFences a1)" "set b3 \<subseteq> set (stripFences b1)"
    using stripEdgeFences_framed [of ?ob ?cb "stripFences a1" inner "stripFences b1"]
    by (auto simp: lit_def)
  obtain a4 where g: "stripJsonTag (a3 @ ?ob # inner @ ?cb # b3) = a4 @ ?ob # inner @ ?cb # b3"
    and s4: "set a4 \<subseteq> set a3"
    using stripJsonTag_framed [of ?ob a3 "inner @ ?cb # b3"]
    by (auto simp: lit_def isWhiteSpace_def)
  from s1 s3 s4 set_stripFences [of a1] set_stripFences [of b1] pre suf
  have "?ob \<notin> set a4" "?cb \<notin> set b3"
    by blast+
  then have m: "matchBraces (a4 @ ?ob # inner @ ?cb # b3) = Some (?ob # inner @ [?cb])"
    by (rule matchBraces_framed)
  show ?thesis
    unfolding candidateText_def Let_def t f e g m by (simp add: inner_def)
qed

lemma reportJson_decodes: "JSON_parse reportJson = Some reportTree"
  by code_simp

lemma reportJson_alone: "JSON_parse (candidateText reportJson) = Some reportTree"
  by code_simp

lemma reportTree_keys:
  "isTruthy (getProperty reportTree (lit ''summary''))"
  "isTruthy (getProperty reportTree (lit ''timeline''))"
  "isTruthy (getProperty reportTree (lit ''insights''))"
  by (simp_all add: reportTree_def isTruthy_def)

lemma braces_in_prose:
  "JSON_parse (candidateText (lit ''Here is the report {as JSON}: '' @ reportJson)) = None"
  by code_simp

lemma brace_behind:
  "JSON_parse (candidateText (reportJson @ lit '' Great set :-}'')) = None"
  by code_simp

lemma fenceInString_decodes:
  "JSON_parse fenceInString
     = Some (JObject [(lit ''summary'', JString (lit ''```'')),
                      (lit ''timeline'', JArray [JNumber 1]),
                      (lit ''insights'', JArray [JNumber 1])])"
  by code_simp

lemma fenceInString_candidate:
  "JSON_parse (candidateText fenceInString)
     = Some (JObject [(lit ''summary'', JString []),
                      (lit ''timeline'', JArray [JNumber 1]),
                      (lit ''insights'', JArray [JNumber 1])])"
  by code_simp

text \<open>
  Claim C1 as it is stated fails. With an opening brace in the prose before the report
  the match of line 13 runs from that brace to the end of the report, and with a closing
  brace in the prose behind it the match runs on to that brace; neither span decodes,
  and the result is \<open>null\<close>. And a report with a fence inside a string loses the fence
  at line 8, so that the result is not the record the report decodes to.
\<close>

theorem brace_prose_counterexample:
  "JSON_parse reportJson = Some reportTree
   \<and> isTruthy (getProperty reportTree (lit ''summary''))
   \<and> isTruthy (getProperty reportTree (lit ''timeline''))
   \<and> isTruthy (getProperty reportTree (lit ''insights''))
   \<and> parseAnalysisResult reportJson = Some reportTree
   \<and> parseAnalysisResult (lit ''Here is the report {as JSON}: '' @ reportJson) = None
   \<and> parseAnalysisResult (reportJson @ lit '' Great set :-}'') = None
   \<and> JSON_parse fenceInString
       = Some (JObject [(lit ''summary'', JString (lit ''```'')),
                        (lit ''timeline'', JArray [JNumber 1]),
                        (lit ''insights'', JArray [JNumber 1])])
   \<and> parseAnalysisResult fenceInString = None"
  by (simp add: reportJson_decodes reportTree_keys parseAnalysisResult_Some_iff reportJson_alone
        fenceInString_decodes)
     (simp add: parseAnalysisResult_def parseAnalysisTry_def braces_in_prose brace_behind
        fenceInString_candidate isTruthy_def)

text \<open>
  Claim C1, amended. For a text that runs from an opening to a closing brace, any text
  before it (prose, code fences) in which no opening brace occurs and any text behind
  it in which no closing brace occurs, the narrowed text is the one of the bare text,
  so \<open>parseAnalysisResult\<close> returns for the decorated text what it returns for the
  bare one; when moreover the bare text has no triple backtick and decodes to a tree
  with truthy \<open>summary\<close>, \<open>timeline\<close> and \<open>insights\<close>, that tree is the result.
\<close>

theorem embedded_report_recovered:
  assumes "report = ch CHR ''{'' # body @ [ch CHR ''}'']"
      and "ch CHR ''{'' \<notin> set before"
      and "ch CHR ''}'' \<notin> set after"
  shows "candidateText (before @ report @ after) = candidateText report
         \<and> parseAnalysisResult (before @ report @ after) = parseAnalysisResult report
         \<and> (\<not> sublist (lit ''```'') report \<longrightarrow>
              JSON_parse report = Some tree \<longrightarrow>
              isTruthy (getProperty tree (lit ''summary'')) \<longrightarrow>
              isTruthy (getProperty tree (lit ''timeline'')) \<longrightarrow>
              isTruthy (getProperty tree (lit ''insights'')) \<longrightarrow>
              parseAnalysisResult (before @ report @ after) = Some tree)"
proof -
  have c: "candidateText (before @ report @ after)
             = ch CHR ''{'' # stripFences body @ [ch CHR ''}'']"
    using candidateText_framed [OF assms(2,3), of body] assms(1) by simp
  have c0: "candidateText report = ch CHR ''{'' # stripFences body @ [ch CHR ''}'']"
    using candidateText_framed [of "[]" "[]" body] assms(1) by simp
  from c c0 have same: "candidateText (before @ report @ after) = candidateText report"
    by simp
  then have p: "parseAnalysisResult (before @ report @ after) = parseAnalysisResult report"
    by (simp add: parseAnalysisResult_def parseAnalysisTry_def)
  have clean: "candidateText (before @ report @ after) = report"
    if "\<not> sublist (lit ''```'') report"
  proof -
    from that assms(1) have "\<not> sublist (lit ''```'') body"
      by (auto simp: sublist_Cons_right sublist_append)
    then have "stripFences body = body"
      by (rule stripFences_no_fence)
    with c assms(1) show ?thesis by simp
  qed
  from same p clean show ?thesis
    by (simp add: parseAnalysisResult_Some_iff)
qed

lemma reportJson_braces:
  "reportJson = ch CHR ''{'' # butlast (tl reportJson) @ [ch CHR ''}'']"
  by code_simp

lemma reportJson_no_fence: "\<not> sublist (lit ''```'') reportJson"
  by code_simp

theorem embedded_report_recovered_witness:
  "parseAnalysisResult
     (lit ''Great set :-} Here is your analysis:\<newline>```json\<newline>'' @ reportJson
        @ lit ''\<newline>```\<newline>{end of report'') = Some reportTree"
proof -
  have b: "ch CHR ''{'' \<notin> set (lit ''Great set :-} Here is your analysis:\<newline>```json\<newline>'')"
    "ch CHR ''}'' \<notin> set (lit ''\<newline>```\<newline>{end of report'')"
    by (simp_all add: lit_def)
  from embedded_report_recovered [OF reportJson_braces b, of reportTree]
       reportJson_no_fence reportJson_decodes reportTree_keys
  show ?thesis by blast
qed

section \<open>Properties of the capture controller\<close>

lemma applyAnalysis_absent:
  "\<forall>m \<in> set prev. mediaId m \<noteq> ident \<Longrightarrow> applyAnalysis ident a prev = prev"
  by (simp add: applyAnalysis_def map_idI)

lemma applyProcessingFailed_absent:
  "\<forall>m \<in> set prev. mediaId m \<noteq> ident \<Longrightarrow> applyProcessingFailed ident prev = prev"
  by (simp add: applyProcessingFailed_def map_idI)

lemma attachPushupData_absent:
  "\<forall>m \<in> set prev. mediaId m \<noteq> ident \<Longrightarrow> attachPushupData ident d prev = prev"
  by (simp add: attachPushupData_def map_idI)

lemma capturedMedia_completeProcessVideo:
  "capturedMedia (completeProcessVideo media analysis response ok st) = cm \<Longrightarrow>
   (\<exists>a. cm = applyAnalysis (mediaId media) a (capturedMedia st))
   \<or> (\<exists>a. cm = applyProcessingFailed (mediaId media)
                  (applyAnalysis (mediaId media) a (capturedMedia st)))"
  by (auto simp: completeProcessVideo_def Let_def split: option.splits if_splits)

lemma completeProcessVideo_absent:
  assumes "\<forall>m \<in> set (capturedMedia st). mediaId m \<noteq> mediaId media"
  shows "capturedMedia (completeProcessVideo media analysis response ok st) = capturedMedia st"
  using capturedMedia_completeProcessVideo [OF refl, of media analysis response ok st] assms
  by (auto simp: applyAnalysis_absent applyProcessingFailed_absent)

lemma removeMedia_absent:
  "\<forall>m \<in> set (capturedMedia (removeMedia ident st)). mediaId m \<noteq> ident"
  by (simp add: removeMedia_def Let_def split: option.splits)

lemma applyAnalysis_nth:
  "i < length prev \<Longrightarrow> mediaId (prev ! i) \<noteq> ident \<Longrightarrow> applyAnalysis ident a prev ! i = prev ! i"
  by (simp add: applyAnalysis_def)

lemma applyProcessingFailed_nth:
  "i < length prev \<Longrightarrow> mediaId (prev ! i) \<noteq> ident \<Longrightarrow> applyProcessingFailed ident prev ! i = prev ! i"
  by (simp add: applyProcessingFailed_def)

lemma attachPushupData_nth:
  "i < length prev \<Longrightarrow> mediaId (prev ! i) \<noteq> ident \<Longrightarrow> attachPushupData ident d prev ! i = prev ! i"
  by (simp add: attachPushupData_def)

lemma length_updates [simp]:
  "length (applyAnalysis ident a prev) = length prev"
  "length (applyProcessingFailed ident prev) = length prev"
  "length (attachPushupData ident d prev) = length prev"
  by (simp_all add: applyAnalysis_def applyProcessingFailed_def attachPushupData_def)

lemma completeProcessVideo_others:
  assumes "i < length (capturedMedia st)" "mediaId (capturedMedia st ! i) \<noteq> mediaId media"
  shows "capturedMedia (completeProcessVideo media analysis response ok st) ! i = capturedMedia st ! i"
  using capturedMedia_completeProcessVideo [OF refl, of media analysis response ok st] assms
  by (auto simp: applyAnalysis_nth applyProcessingFailed_nth)

lemma completeProcessVideo_length:
  "length (capturedMedia (completeProcessVideo media analysis response ok st)) = length (capturedMedia st)"
  using capturedMedia_completeProcessVideo [OF refl, of media analysis response ok st]
  by auto

text \<open>
  Claim C8. When the inference for a record answers after the record was removed, the
  completion leaves the records in memory as they are, on every path of
  \<open>processVideoWithGemini\<close>: each update by id is the identity on a collection without
  that id. Every update by id keeps the number of records and leaves each record with
  another id unchanged.
\<close>

theorem completion_after_removal_is_noop:
  "capturedMedia (completeProcessVideo media analysis response storeSucceeds
                    (removeMedia (mediaId media) st))
     = capturedMedia (removeMedia (mediaId media) st)
   \<and> ((\<forall>m \<in> set prev. mediaId m \<noteq> ident) \<longrightarrow>
        applyAnalysis ident a prev = prev \<and> applyProcessingFailed ident prev = prev
        \<and> attachPushupData ident d prev = prev)
   \<and> length (capturedMedia (completeProcessVideo media analysis response storeSucceeds st))
       = length (capturedMedia st)
   \<and> (\<forall>i < length (capturedMedia st).
        mediaId (capturedMedia st ! i) \<noteq> mediaId media \<longrightarrow>
        capturedMedia (completeProcessVideo media analysis response storeSucceeds st) ! i
          = capturedMedia st ! i)
   \<and> (\<forall>i < length prev.
        mediaId (prev ! i) \<noteq> ident \<longrightarrow>
        applyAnalysis ident a prev ! i = prev ! i
        \<and> applyProcessingFailed ident prev ! i = prev ! i
        \<and> attachPushupData ident d prev ! i = prev ! i)"
  by (intro conjI allI impI)
     (simp_all add: completeProcessVideo_absent [OF removeMedia_absent]
        applyAnalysis_absent applyProcessingFailed_absent attachPushupData_absent
        completeProcessVideo_length completeProcessVideo_others
        applyAnalysis_nth applyProcessingFailed_nth attachPushupData_nth)

theorem completion_after_removal_is_noop_witness:
  "mediaId (clip 1) \<noteq> [3] \<and> mediaId (clip 2) \<noteq> [3]
   \<and> applyAnalysis [3] (pendingAnalysis 0) [clip 1, clip 2] = [clip 1, clip 2]
   \<and> mediaId ([clip 1, clip 2] ! 1) \<noteq> [1]
   \<and> applyAnalysis [1] (pendingAnalysis 0) [clip 1, clip 2] ! 1 = clip 2"
proof -
  have h: "\<forall>m \<in> set [clip 1, clip 2]. mediaId m \<noteq> [3]"
    by (simp add: clip_def)
  have k: "1 < length [clip 1, clip 2] \<and> mediaId ([clip 1, clip 2] ! 1) \<noteq> [1]"
    by (simp add: clip_def)
  from completion_after_removal_is_noop [of _ _ _ _ _ "[clip 1, clip 2]" "[3]" "pendingAnalysis 0"]
       completion_after_removal_is_noop [of _ _ _ _ _ "[clip 1, clip 2]" "[1]" "pendingAnalysis 0"] h k
  show ?thesis by fastforce
qed

lemma lit_nonempty [simp]: "lit (c # cs) \<noteq> []"
  by (simp add: lit_def)

text \<open>
  Claim C4 at a stored video whose inference fails: the record in memory gets the
  annotation with \<open>isProcessing = false\<close> and the message, and \<open>storeMedia\<close> is not
  called, whereas an answer with text is written to the store.
\<close>

theorem failure_is_not_persisted:
  "hasStorageKey pendingClip
   \<and> map geminiAnalysis
         (capturedMedia (processVideoWithGemini pendingClip failedResponse True
                           (emptyHookState\<lparr>capturedMedia := [pendingClip]\<rparr>)))
       = [Some ((pendingAnalysis 1000)\<lparr>isProcessing := Some False,
                                       error := Some (lit ''quota exceeded'')\<rparr>)]
   \<and> storeMediaCalls (processVideoWithGemini pendingClip failedResponse True
                         (emptyHookState\<lparr>capturedMedia := [pendingClip]\<rparr>)) = []
   \<and> storeMediaCalls (processVideoWithGemini pendingClip (textResponse (lit ''5 reps'')) True
                         (emptyHookState\<lparr>capturedMedia := [pendingClip]\<rparr>))
       = [toStoredData pendingClip
            (Some ((pendingAnalysis 1000)\<lparr>result := lit ''5 reps'',
                     pushupData := parseAnalysisResult (lit ''5 reps''),
                     isProcessing := Some False\<rparr>))]"
  by (simp add: processVideoWithGemini_def completeProcessVideo_def Let_def hasStorageKey_def
      pendingClip_def newClip_def pendingAnalysis_def emptyHookState_def failedResponse_def
      textResponse_def applyAnalysis_def)

text \<open>
  Claim C5 as it is stated fails: when \<open>storeMedia\<close> rejects, the record put in memory
  is the one passed to \<open>addMedia\<close>, without the annotation.
\<close>

theorem add_storage_failure_counterexample:
  "map geminiAnalysis (capturedMedia (fst (addMedia newClip True 2000 None emptyHookState)))
     = [None]"
  by (simp add: addMedia_def Let_def newClip_def emptyHookState_def)

text \<open>
  Claim C5, amended. For a video added while inference is available, the pending
  annotation with the structured-report prompt is attached before \<open>storeMedia\<close> is
  called, so the record given to the store carries it, and when the store answers with
  a key so does the record in memory, for which the inference is then started. When the
  store rejects, the record is kept in memory as it was passed to \<open>addMedia\<close>, and no
  inference is started. In every case the capture is put in front of the records in
  memory.
\<close>

theorem add_keeps_capture:
  "(mediaType media = Video \<and> configured \<longrightarrow>
      storeMediaCalls (fst (addMedia media configured now stored st))
        = storeMediaCalls st @ [toStoredData media (Some (pendingAnalysis now))]
      \<and> (\<forall>key. stored = Some key \<longrightarrow>
            capturedMedia (fst (addMedia media configured now stored st))
              = media\<lparr>indexedDbId := Some key, geminiAnalysis := Some (pendingAnalysis now)\<rparr>
                  # capturedMedia st
            \<and> snd (addMedia media configured now stored st)
              = Some (media\<lparr>indexedDbId := Some key,
                            geminiAnalysis := Some (pendingAnalysis now)\<rparr>)))
   \<and> (stored = None \<longrightarrow>
        capturedMedia (fst (addMedia media configured now stored st)) = media # capturedMedia st
        \<and> snd (addMedia media configured now stored st) = None)
   \<and> (\<exists>m. capturedMedia (fst (addMedia media configured now stored st)) = m # capturedMedia st
          \<and> mediaId m = mediaId media \<and> mediaType m = mediaType media \<and> blob m = blob media)"
  by (cases stored)
     (auto simp: addMedia_def Let_def toStoredData_def pendingAnalysis_def)

theorem add_keeps_capture_witness:
  "mediaType newClip = Video
   \<and> capturedMedia (fst (addMedia newClip True 2000 (Some (lit ''video_1'')) emptyHookState))
       = [newClip\<lparr>indexedDbId := Some (lit ''video_1''),
                  geminiAnalysis := Some (pendingAnalysis 2000)\<rparr>]
   \<and> capturedMedia (fst (addMedia newClip True 2000 None emptyHookState)) = [newClip]
   \<and> storeMediaCalls (fst (addMedia newClip True 2000 None emptyHookState))
       = [toStoredData newClip (Some (pendingAnalysis 2000))]"
proof -
  have v: "mediaType newClip = Video \<and> True"
    by (simp add: newClip_def)
  have e: "capturedMedia emptyHookState = [] \<and> storeMediaCalls emptyHookState = []"
    by (simp add: emptyHookState_def)
  from add_keeps_capture [of newClip True 2000 "Some (lit ''video_1'')" emptyHookState]
       add_keeps_capture [of newClip True 2000 None emptyHookState] v e
  show ?thesis by simp
qed

section \<open>Properties of the reprocessing\<close>

lemma reprocessUpdates_Nil [simp]: "reprocessUpdates [] = []"
  by (simp add: reprocessUpdates_def List.map_filter_simps)

lemma reprocessUpdates_Cons:
  "reprocessUpdates (item # rest) =
     (case structuredFor item of
        None \<Rightarrow> reprocessUpdates rest
      | Some d \<Rightarrow> (mediaId item, d) # reprocessUpdates rest)"
  by (simp add: reprocessUpdates_def List.map_filter_simps split: option.splits)

lemma reprocessLoop_updates:
  "reprocessLoop media cb (n, st) =
     (n + length (reprocessUpdates media),
      foldl (\<lambda>s (i, d). cb i d s) st (reprocessUpdates media))"
proof (induction media arbitrary: n st)
  case Nil
  then show ?case by simp
next
  case (Cons item rest)
  then show ?case
    by (simp add: reprocessUpdates_Cons structuredFor_def split: option.splits)
qed

lemma reprocessAnalysis_updates:
  "reprocessAnalysis media cb st =
     (length (reprocessUpdates media),
      foldl (\<lambda>s (i, d). cb i d s) st (reprocessUpdates media))"
  by (simp add: reprocessAnalysis_def reprocessLoop_updates)

lemma attachPushupData_map: "attachPushupData i d l = map (attachTo i d) l"
  by (simp add: attachPushupData_def attachTo_def)

lemma foldl_reprocessCallback:
  "foldl (\<lambda>s (i, d). reprocessCallback i d s) st us =
     st\<lparr>capturedMedia := map (\<lambda>m. foldl (\<lambda>x (i, d). attachTo i d x) m us) (capturedMedia st)\<rparr>"
proof (induction us arbitrary: st)
  case Nil
  then show ?case by simp
next
  case (Cons u us)
  then show ?case
    by (cases u) (simp add: reprocessCallback_def attachPushupData_map comp_def)
qed

lemma hasStructured_settled: "hasStructured m \<Longrightarrow> structuredFor m = None"
  by (auto simp: hasStructured_def structuredFor_def needsReprocessing_def split: option.splits)

lemma attachTo_hasStructured:
  "truthy d \<Longrightarrow> hasStructured m \<or> mediaId m = i \<Longrightarrow> hasStructured (attachTo i d m)"
  by (auto simp: attachTo_def hasStructured_def isTruthy_def split: option.splits)

lemma attachTo_id [simp]: "mediaId (attachTo i d m) = mediaId m"
  by (simp add: attachTo_def)

lemma attachTo_other: "mediaId m \<noteq> i \<Longrightarrow> attachTo i d m = m"
  by (simp add: attachTo_def)

lemma foldl_attachTo_hasStructured:
  "\<forall>(i, d) \<in> set us. truthy d \<Longrightarrow> hasStructured m \<Longrightarrow>
   hasStructured (foldl (\<lambda>x (i, d). attachTo i d x) m us)"
  by (induction us arbitrary: m) (auto simp: attachTo_hasStructured)

lemma foldl_attachTo_id [simp]:
  "mediaId (foldl (\<lambda>x (i, d). attachTo i d x) m us) = mediaId m"
  by (induction us arbitrary: m) auto

lemma foldl_attachTo_hit:
  "\<forall>(i, d) \<in> set us. truthy d \<Longrightarrow> mediaId m \<in> fst ` set us \<Longrightarrow>
   hasStructured (foldl (\<lambda>x (i, d). attachTo i d x) m us)"
proof (induction us arbitrary: m)
  case Nil
  then show ?case by simp
next
  case (Cons u us)
  obtain i d where u: "u = (i, d)" by (cases u)
  show ?case
  proof (cases "mediaId m = i")
    case True
    with Cons.prems u have "hasStructured (attachTo i d m)"
      by (simp add: attachTo_hasStructured)
    with Cons.prems u show ?thesis
      by (simp add: foldl_attachTo_hasStructured)
  next
    case False
    with Cons.prems u have "mediaId (attachTo i d m) \<in> fst ` set us"
      by auto
    with Cons.IH [of "attachTo i d m"] Cons.prems u show ?thesis
      by simp
  qed
qed

lemma foldl_attachTo_miss:
  "mediaId m \<notin> fst ` set us \<Longrightarrow> foldl (\<lambda>x (i, d). attachTo i d x) m us = m"
  by (induction us arbitrary: m) (auto simp: attachTo_other)

lemma reprocessUpdates_truthy: "\<forall>(i, d) \<in> set (reprocessUpdates media). truthy d"
  by (induction media)
     (auto simp: reprocessUpdates_Cons structuredFor_def
        split: option.splits if_splits dest: parseAnalysisResult_truthy)

lemma reprocessUpdates_mem:
  "m \<in> set media \<Longrightarrow> structuredFor m = Some d \<Longrightarrow> (mediaId m, d) \<in> set (reprocessUpdates media)"
  by (induction media) (auto simp: reprocessUpdates_Cons split: option.splits)

lemma settled_after_updates:
  assumes "m \<in> set media"
  shows "structuredFor (foldl (\<lambda>x (i, d). attachTo i d x) m (reprocessUpdates media)) = None"
proof (cases "mediaId m \<in> fst ` set (reprocessUpdates media)")
  case True
  then show ?thesis
    by (simp add: foldl_attachTo_hit hasStructured_settled reprocessUpdates_truthy)
next
  case False
  then have same: "foldl (\<lambda>x (i, d). attachTo i d x) m (reprocessUpdates media) = m"
    by (rule foldl_attachTo_miss)
  have "structuredFor m = None"
  proof (rule ccontr)
    assume "structuredFor m \<noteq> None"
    then obtain d where "structuredFor m = Some d" by auto
    with assms have "(mediaId m, d) \<in> set (reprocessUpdates media)"
      by (rule reprocessUpdates_mem)
    then have "mediaId m \<in> fst ` set (reprocessUpdates media)"
      by force
    with False show False by simp
  qed
  with same show ?thesis by simp
qed

lemma reprocessUpdates_settled:
  "\<forall>m \<in> set media. structuredFor m = None \<Longrightarrow> reprocessUpdates media = []"
  by (induction media) (auto simp: reprocessUpdates_Cons)

lemma second_run_updates:
  "reprocessUpdates (capturedMedia (snd (reprocessAnalysis (capturedMedia st) reprocessCallback st))) = []"
  by (rule reprocessUpdates_settled)
     (auto simp: reprocessAnalysis_updates foldl_reprocessCallback settled_after_updates)

lemma fst_reprocessUpdates: "fst ` set (reprocessUpdates ms) \<subseteq> mediaId ` set ms"
  by (induction ms) (auto simp: reprocessUpdates_Cons split: option.splits)

lemma foldl_attachTo_distinct:
  "distinct (map mediaId ms) \<Longrightarrow> m \<in> set ms \<Longrightarrow>
   foldl (\<lambda>x (i, d). attachTo i d x) m (reprocessUpdates ms) =
     (case structuredFor m of None \<Rightarrow> m | Some d \<Rightarrow> attachTo (mediaId m) d m)"
proof (induction ms)
  case Nil
  then show ?case by simp
next
  case (Cons y rest)
  show ?case
  proof (cases "m = y")
    case True
    from Cons.prems have "mediaId y \<notin> mediaId ` set rest"
      by auto
    with fst_reprocessUpdates [of rest]
    have miss: "mediaId y \<notin> fst ` set (reprocessUpdates rest)"
      by blast
    then have keep: "foldl (\<lambda>x (i, d). attachTo i d x) x (reprocessUpdates rest) = x"
      if "mediaId x = mediaId y" for x
      using that by (intro foldl_attachTo_miss) simp
    show ?thesis
      using True by (simp add: reprocessUpdates_Cons keep split: option.splits)
  next
    case False
    with Cons.prems have m: "m \<in> set rest" and d: "distinct (map mediaId rest)"
      and fresh: "mediaId y \<notin> mediaId ` set rest"
      by auto
    have ne: "mediaId m \<noteq> mediaId y"
    proof
      assume "mediaId m = mediaId y"
      with m have "mediaId y \<in> mediaId ` set rest"
        by (metis imageI)
      with fresh show False by simp
    qed
    from Cons.IH [OF d m] ne show ?thesis
      by (simp add: reprocessUpdates_Cons attachTo_other split: option.splits)
  qed
qed

lemma length_reprocessUpdates:
  "length (reprocessUpdates ms) = length (filter (\<lambda>m. structuredFor m \<noteq> None) ms)"
  by (induction ms) (auto simp: reprocessUpdates_Cons split: option.splits)

lemma structuredFor_Some_analysis:
  "structuredFor m = Some d \<Longrightarrow>
   \<exists>a. geminiAnalysis m = Some a \<and> \<not> isTruthy (pushupData a) \<and> truthy d"
  by (auto simp: structuredFor_def needsReprocessing_def
      split: if_splits option.splits dest: parseAnalysisResult_truthy)

lemma attachTo_self:
  "geminiAnalysis m = Some a \<Longrightarrow>
   attachTo (mediaId m) d m = m\<lparr>geminiAnalysis := Some (a\<lparr>pushupData := Some d\<rparr>)\<rparr>"
  by (simp add: attachTo_def spreadAnalysis_def)

lemma attachTo_changes:
  assumes "structuredFor m = Some d"
  shows "attachTo (mediaId m) d m \<noteq> m"
proof -
  from structuredFor_Some_analysis [OF assms] obtain a
    where a: "geminiAnalysis m = Some a" "\<not> isTruthy (pushupData a)" "truthy d"
    by blast
  then have "pushupData a \<noteq> Some d"
    by (auto simp: isTruthy_def)
  then have "a\<lparr>pushupData := Some d\<rparr> \<noteq> a"
    by (metis GeminiAnalysis.select_convs(6) GeminiAnalysis.surjective GeminiAnalysis.update_convs(6))
  then have "geminiAnalysis (attachTo (mediaId m) d m) \<noteq> geminiAnalysis m"
    using a(1) by (simp add: attachTo_self)
  then show ?thesis by auto
qed

lemma reprocessOnLoad_records:
  "capturedMedia (snd (reprocessOnLoad st)) =
     map (\<lambda>m. foldl (\<lambda>x (i, d). attachTo i d x) m (reprocessUpdates (capturedMedia st)))
       (capturedMedia st)"
  by (simp add: reprocessOnLoad_def reprocessAnalysis_updates foldl_reprocessCallback)

lemma reprocessOnLoad_nth:
  assumes "distinct (map mediaId (capturedMedia st))" "i < length (capturedMedia st)"
  shows "capturedMedia (snd (reprocessOnLoad st)) ! i =
           (case structuredFor (capturedMedia st ! i) of
              None \<Rightarrow> capturedMedia st ! i
            | Some d \<Rightarrow> attachTo (mediaId (capturedMedia st ! i)) d (capturedMedia st ! i))"
  using assms by (simp add: reprocessOnLoad_records foldl_attachTo_distinct)

lemma reprocessOnLoad_changed:
  assumes "distinct (map mediaId (capturedMedia st))" "i < length (capturedMedia st)"
  shows "capturedMedia (snd (reprocessOnLoad st)) ! i \<noteq> capturedMedia st ! i
           \<longleftrightarrow> structuredFor (capturedMedia st ! i) \<noteq> None"
  using assms attachTo_changes
  by (auto simp: reprocessOnLoad_nth split: option.splits)

lemma reprocessOnLoad_count:
  assumes "distinct (map mediaId (capturedMedia st))"
  shows "fst (reprocessOnLoad st) =
           card {i. i < length (capturedMedia st)
                    \<and> capturedMedia (snd (reprocessOnLoad st)) ! i \<noteq> capturedMedia st ! i}"
proof -
  have "{i. i < length (capturedMedia st)
            \<and> capturedMedia (snd (reprocessOnLoad st)) ! i \<noteq> capturedMedia st ! i}
        = {i. i < length (capturedMedia st) \<and> structuredFor (capturedMedia st ! i) \<noteq> None}"
    using reprocessOnLoad_changed [OF assms] by blast
  then show ?thesis
    by (simp add: reprocessOnLoad_def reprocessAnalysis_updates length_reprocessUpdates
        length_filter_conv_card)
qed

text \<open>
  Claim C7. A run of \<open>reprocessAnalysis\<close> calls \<open>updateCallback\<close> once, in order, for
  each video whose annotation has a non-empty \<open>result\<close>, no structured report and is
  not processing, and whose \<open>result\<close> parses; the parser decides nothing for any other
  record. The run returns the number of these calls and changes the state by these calls
  only. With the callback of the hook it calls neither the inference client nor the
  store, and it keeps every record in its place: each record becomes what the calls of
  the callback make of it. When the ids of the records in memory are distinct, the run
  over them gives each record that it reprocesses the parsed report as \<open>pushupData\<close>
  and nothing else, leaves every other record as it was, and returns the number of
  records that it changed. A second run over the records that the first run left
  returns 0 and changes nothing.
\<close>

theorem reprocess_idempotent:
  "reprocessAnalysis media cb s =
     (length (reprocessUpdates media),
      foldl (\<lambda>x (i, d). cb i d x) s (reprocessUpdates media))
   \<and> reprocessUpdates media =
       List.map_filter (\<lambda>item. map_option (Pair (mediaId item)) (structuredFor item)) media
   \<and> (structuredFor item = Some data \<longleftrightarrow>
        mediaType item = Video
        \<and> (\<exists>a. geminiAnalysis item = Some a \<and> result a \<noteq> [] \<and> \<not> isTruthy (pushupData a)
               \<and> isProcessing a \<noteq> Some True \<and> parseAnalysisResult (result a) = Some data))
   \<and> processVideoCalls (snd (reprocessAnalysis media reprocessCallback st)) = processVideoCalls st
   \<and> storeMediaCalls (snd (reprocessAnalysis media reprocessCallback st)) = storeMediaCalls st
   \<and> deleteMediaCalls (snd (reprocessAnalysis media reprocessCallback st)) = deleteMediaCalls st
   \<and> capturedMedia (snd (reprocessAnalysis media reprocessCallback st))
       = map (\<lambda>m. foldl (\<lambda>x (i, d). attachTo i d x) m (reprocessUpdates media))
           (capturedMedia st)
   \<and> (distinct (map mediaId (capturedMedia st)) \<longrightarrow>
        (\<forall>i < length (capturedMedia st).
           (\<forall>a d. geminiAnalysis (capturedMedia st ! i) = Some a
                  \<and> structuredFor (capturedMedia st ! i) = Some d \<longrightarrow>
                  capturedMedia (snd (reprocessOnLoad st)) ! i
                    = (capturedMedia st ! i)\<lparr>geminiAnalysis := Some (a\<lparr>pushupData := Some d\<rparr>)\<rparr>)
           \<and> (structuredFor (capturedMedia st ! i) = None \<longrightarrow>
                capturedMedia (snd (reprocessOnLoad st)) ! i = capturedMedia st ! i))
        \<and> fst (reprocessOnLoad st)
            = card {i. i < length (capturedMedia st)
                       \<and> capturedMedia (snd (reprocessOnLoad st)) ! i \<noteq> capturedMedia st ! i})
   \<and> length (capturedMedia (snd (reprocessOnLoad st))) = length (capturedMedia st)
   \<and> reprocessOnLoad (snd (reprocessOnLoad st)) = (0, snd (reprocessOnLoad st))"
proof -
  have a: "structuredFor item = Some data \<longleftrightarrow>
        mediaType item = Video
        \<and> (\<exists>a. geminiAnalysis item = Some a \<and> result a \<noteq> [] \<and> \<not> isTruthy (pushupData a)
               \<and> isProcessing a \<noteq> Some True \<and> parseAnalysisResult (result a) = Some data)"
    by (auto simp: structuredFor_def needsReprocessing_def split: option.splits)
  have b: "reprocessOnLoad (snd (reprocessOnLoad st)) = (0, snd (reprocessOnLoad st))"
    using second_run_updates [of st]
    by (simp add: reprocessOnLoad_def reprocessAnalysis_updates [of "capturedMedia _"])
  have c: "processVideoCalls (snd (reprocessAnalysis media reprocessCallback st)) = processVideoCalls st"
    "storeMediaCalls (snd (reprocessAnalysis media reprocessCallback st)) = storeMediaCalls st"
    "deleteMediaCalls (snd (reprocessAnalysis media reprocessCallback st)) = deleteMediaCalls st"
    "capturedMedia (snd (reprocessAnalysis media reprocessCallback st))
       = map (\<lambda>m. foldl (\<lambda>x (i, d). attachTo i d x) m (reprocessUpdates media))
           (capturedMedia st)"
    by (simp_all add: reprocessAnalysis_updates foldl_reprocessCallback)
  have d: "capturedMedia (snd (reprocessOnLoad st)) ! i
             = (capturedMedia st ! i)\<lparr>geminiAnalysis := Some (a\<lparr>pushupData := Some d\<rparr>)\<rparr>"
    if "distinct (map mediaId (capturedMedia st))" "i < length (capturedMedia st)"
      "geminiAnalysis (capturedMedia st ! i) = Some a" "structuredFor (capturedMedia st ! i) = Some d"
    for i a d
    using that by (simp add: reprocessOnLoad_nth attachTo_self)
  have e: "capturedMedia (snd (reprocessOnLoad st)) ! i = capturedMedia st ! i"
    if "distinct (map mediaId (capturedMedia st))" "i < length (capturedMedia st)"
      "structuredFor (capturedMedia st ! i) = None"
    for i
    using that by (simp add: reprocessOnLoad_nth)
  have f: "reprocessAnalysis media cb s =
     (length (reprocessUpdates media),
      foldl (\<lambda>x (i, d). cb i d x) s (reprocessUpdates media))"
    by (rule reprocessAnalysis_updates)
  have g: "length (capturedMedia (snd (reprocessOnLoad st))) = length (capturedMedia st)"
    by (simp add: reprocessOnLoad_records)
  have h: "reprocessUpdates media =
       List.map_filter (\<lambda>item. map_option (Pair (mediaId item)) (structuredFor item)) media"
    by (simp add: reprocessUpdates_def)
  have k: "distinct (map mediaId (capturedMedia st)) \<longrightarrow>
        (\<forall>i < length (capturedMedia st).
           (\<forall>a d. geminiAnalysis (capturedMedia st ! i) = Some a
                  \<and> structuredFor (capturedMedia st ! i) = Some d \<longrightarrow>
                  capturedMedia (snd (reprocessOnLoad st)) ! i
                    = (capturedMedia st ! i)\<lparr>geminiAnalysis := Some (a\<lparr>pushupData := Some d\<rparr>)\<rparr>)
           \<and> (structuredFor (capturedMedia st ! i) = None \<longrightarrow>
                capturedMedia (snd (reprocessOnLoad st)) ! i = capturedMedia st ! i))
        \<and> fst (reprocessOnLoad st)
            = card {i. i < length (capturedMedia st)
                       \<and> capturedMedia (snd (reprocessOnLoad st)) ! i \<noteq> capturedMedia st ! i}"
    using d e reprocessOnLoad_count [of st] by blast
  from f h a c k g b show ?thesis
    by (intro conjI)
qed

lemma reportText_decodes: "JSON_parse (candidateText reportText) = Some reportTree"
  by code_simp

lemma reportText_parsed: "parseAnalysisResult reportText = Some reportTree"
  by (simp add: parseAnalysisResult_Some_iff reportText_decodes)
     (simp add: reportTree_def isTruthy_def)

lemma reportText_nonempty: "reportText \<noteq> []"
  by (simp add: reportText_def)

lemma analysedClip_updates: "reprocessUpdates [analysedClip] = [(lit ''video_1'', reportTree)]"
  by (simp add: reprocessUpdates_Cons structuredFor_def needsReprocessing_def analysedClip_def
      pendingClip_def newClip_def pendingAnalysis_def reportText_parsed reportText_nonempty
      isTruthy_def)

lemma analysedClip_structured: "structuredFor analysedClip = Some reportTree"
  by (simp add: structuredFor_def needsReprocessing_def analysedClip_def
      pendingClip_def newClip_def pendingAnalysis_def reportText_parsed reportText_nonempty
      isTruthy_def)

theorem reprocess_idempotent_witness:
  "fst (reprocessOnLoad (emptyHookState\<lparr>capturedMedia := [analysedClip]\<rparr>)) = 1
   \<and> capturedMedia (snd (reprocessOnLoad (emptyHookState\<lparr>capturedMedia := [analysedClip]\<rparr>))) ! 0
       = analysedClip\<lparr>geminiAnalysis :=
           Some ((pendingAnalysis 1000)\<lparr>result := reportText, isProcessing := Some False,
                                        pushupData := Some reportTree\<rparr>)\<rparr>
   \<and> fst (reprocessOnLoad (snd (reprocessOnLoad
            (emptyHookState\<lparr>capturedMedia := [analysedClip]\<rparr>)))) = 0"
proof -
  let ?st = "emptyHookState\<lparr>capturedMedia := [analysedClip]\<rparr>"
  let ?a = "(pendingAnalysis 1000)\<lparr>result := reportText, isProcessing := Some False\<rparr>"
  have m: "capturedMedia ?st = [analysedClip]"
    by simp
  have dist: "distinct (map mediaId (capturedMedia ?st))"
    by simp
  have an: "geminiAnalysis (capturedMedia ?st ! 0) = Some ?a"
    by (simp add: analysedClip_def)
  have sf: "structuredFor (capturedMedia ?st ! 0) = Some reportTree"
    by (simp add: analysedClip_structured)
  note t = reprocess_idempotent [of "[analysedClip]" reprocessCallback ?st
             analysedClip reportTree ?st]
  from t have run: "reprocessAnalysis [analysedClip] reprocessCallback ?st =
      (length (reprocessUpdates [analysedClip]),
       foldl (\<lambda>x (i, d). reprocessCallback i d x) ?st (reprocessUpdates [analysedClip]))"
    by (rule conjunct1)
  have def: "reprocessOnLoad ?st = reprocessAnalysis (capturedMedia ?st) reprocessCallback ?st"
    by (rule reprocessOnLoad_def)
  from t have again: "reprocessOnLoad (snd (reprocessOnLoad ?st)) = (0, snd (reprocessOnLoad ?st))"
    by blast
  from t dist have "\<forall>i < length (capturedMedia ?st).
           (\<forall>a d. geminiAnalysis (capturedMedia ?st ! i) = Some a
                  \<and> structuredFor (capturedMedia ?st ! i) = Some d \<longrightarrow>
                  capturedMedia (snd (reprocessOnLoad ?st)) ! i
                    = (capturedMedia ?st ! i)\<lparr>geminiAnalysis := Some (a\<lparr>pushupData := Some d\<rparr>)\<rparr>)"
    by blast
  with an sf have "capturedMedia (snd (reprocessOnLoad ?st)) ! 0
      = (capturedMedia ?st ! 0)\<lparr>geminiAnalysis := Some (?a\<lparr>pushupData := Some reportTree\<rparr>)\<rparr>"
    by (simp only: m length_Cons list.size)
  then have rec: "capturedMedia (snd (reprocessOnLoad ?st)) ! 0
       = analysedClip\<lparr>geminiAnalysis :=
           Some ((pendingAnalysis 1000)\<lparr>result := reportText, isProcessing := Some False,
                                        pushupData := Some reportTree\<rparr>)\<rparr>"
    by simp
  have first: "fst (reprocessOnLoad ?st) = 1"
    by (simp add: def run analysedClip_updates)
  from first rec again show ?thesis by simp
qed


end
